theory Spec2Isabelle
  imports Complex_Main
begin

section \<open>JavaScript values\<close>

text \<open>
  The tools work on untyped JavaScript values (\<^verbatim>\<open>node: any\<close>, \<^verbatim>\<open>args: unknown[]\<close>).
  A value is a primitive, an array or a plain object; a plain object is the list of its
  own properties.  Numbers are the finite ones (as reals) and \<^verbatim>\<open>NaN\<close>.
\<close>

datatype jsval =
    JUndefined
  | JNull
  | JBool bool
  | JNum real
  | JNaN
  | JStr string
  | JArr "jsval list"
  | JObj "(string \<times> jsval) list"

text \<open>Truthiness, as \<^verbatim>\<open>if (v)\<close>, \<^verbatim>\<open>v ? a : b\<close>, \<^verbatim>\<open>v || w\<close> and \<^verbatim>\<open>v && w\<close> test it.\<close>

fun truthy :: "jsval \<Rightarrow> bool" where
  "truthy JUndefined = False"
| "truthy JNull = False"
| "truthy (JBool b) = b"
| "truthy (JNum x) = (x \<noteq> 0)"
| "truthy JNaN = False"
| "truthy (JStr s) = (s \<noteq> [])"
| "truthy (JArr vs) = True"
| "truthy (JObj ps) = True"

text \<open>\<^verbatim>\<open>v || w\<close> and \<^verbatim>\<open>v ?? w\<close>.\<close>

definition js_or :: "jsval \<Rightarrow> jsval \<Rightarrow> jsval" where
  "js_or v w = (if truthy v then v else w)"

definition nullish :: "jsval \<Rightarrow> jsval \<Rightarrow> jsval" where
  "nullish v w = (if v = JUndefined \<or> v = JNull then w else v)"

text \<open>
  Property read \<^verbatim>\<open>v.k\<close> for the property names the tools use: an own property of a
  plain object, \<^verbatim>\<open>undefined\<close> when the object has none of that name, and
  \<^verbatim>\<open>undefined\<close> on a primitive or an array (none of the names read here is on a
  prototype).  The tools read properties of truthy values only.
\<close>

fun get_prop :: "jsval \<Rightarrow> string \<Rightarrow> jsval" where
  "get_prop (JObj ps) k = (case map_of ps k of None \<Rightarrow> JUndefined | Some v \<Rightarrow> v)"
| "get_prop v k = JUndefined"

section \<open>Accessibility tree normalizer\<close>

type_synonym entry = "(string \<times> jsval) list"

text \<open>The three serialisations of a state attribute that the entry literal uses.\<close>

definition flag :: "jsval \<Rightarrow> jsval" where
  "flag v = (if truthy v then JStr ''true'' else JStr '''')"

definition tristate :: "jsval \<Rightarrow> jsval" where
  "tristate v =
     (if v = JBool True then JStr ''true''
      else if v = JBool False then JStr ''false''
      else if v = JStr ''mixed'' then JStr ''mixed''
      else JStr '''')"

definition bistate :: "jsval \<Rightarrow> jsval" where
  "bistate v =
     (if v = JBool True then JStr ''true''
      else if v = JBool False then JStr ''false''
      else JStr '''')"

text \<open>The object literal \<^verbatim>\<open>entry\<close> of \<^verbatim>\<open>flattenAccessibilityTree\<close>, key by key.\<close>

definition entry_of :: "jsval \<Rightarrow> entry" where
  "entry_of node =
   [(''role'', js_or (get_prop node ''role'') (JStr '''')),
    (''name'', js_or (get_prop node ''name'') (JStr '''')),
    (''value'', nullish (get_prop node ''value'') (JStr '''')),
    (''description'', js_or (get_prop node ''description'') (JStr '''')),
    (''disabled'', flag (get_prop node ''disabled'')),
    (''focused'', flag (get_prop node ''focused'')),
    (''selected'', flag (get_prop node ''selected'')),
    (''checked'', tristate (get_prop node ''checked'')),
    (''expanded'', bistate (get_prop node ''expanded'')),
    (''pressed'', tristate (get_prop node ''pressed'')),
    (''readonly'', flag (get_prop node ''readonly'')),
    (''required'', flag (get_prop node ''required'')),
    (''level'', nullish (get_prop node ''level'') (JStr '''')),
    (''valuemin'', nullish (get_prop node ''valuemin'') (JStr '''')),
    (''valuemax'', nullish (get_prop node ''valuemax'') (JStr '''')),
    (''autocomplete'', js_or (get_prop node ''autocomplete'') (JStr '''')),
    (''haspopup'', js_or (get_prop node ''haspopup'') (JStr '''')),
    (''invalid'', flag (get_prop node ''invalid'')),
    (''modal'', flag (get_prop node ''modal'')),
    (''multiline'', flag (get_prop node ''multiline'')),
    (''multiselectable'', flag (get_prop node ''multiselectable'')),
    (''orientation'', js_or (get_prop node ''orientation'') (JStr '''')),
    (''keyshortcuts'', js_or (get_prop node ''keyshortcuts'') (JStr '''')),
    (''roledescription'', js_or (get_prop node ''roledescription'') (JStr '''')),
    (''valuetext'', js_or (get_prop node ''valuetext'') (JStr ''''))]"

text \<open>
  \<^verbatim>\<open>flattenAccessibilityTree(node, result)\<close>: the accumulator \<^verbatim>\<open>result\<close> is one array
  that every call pushes to; here it is passed in and returned.
\<close>

lemma size_map_of_JObj:
  "map_of ps k = Some v \<Longrightarrow> size v < size (JObj ps)"
  by (induction ps) (auto split: if_splits)

lemma size_mem_JArr:
  "c \<in> set cs \<Longrightarrow> size c < size (JArr cs)"
  by (induction cs) auto

lemma size_prop_children:
  assumes "get_prop node k = JArr cs" and "c \<in> set cs"
  shows "size c < size node"
proof (cases node)
  case (JObj ps)
  with assms(1) obtain v where v: "map_of ps k = Some v" "v = JArr cs"
    by (auto split: option.splits)
  from size_map_of_JObj [OF v(1)] size_mem_JArr [OF assms(2)] v(2) JObj
  show ?thesis by simp
qed (use assms in auto)

function flattenAccessibilityTree :: "jsval \<Rightarrow> entry list \<Rightarrow> entry list" where
  "flattenAccessibilityTree node result =
     (if \<not> truthy node then result
      else
        let result1 =
              (if get_prop node ''role'' \<noteq> JStr ''WebArea'' \<or> truthy (get_prop node ''name'')
               then result @ [entry_of node] else result)
        in case get_prop node ''children'' of
             JArr cs \<Rightarrow> fold (\<lambda>child acc. flattenAccessibilityTree child acc) cs result1
           | _ \<Rightarrow> result1)"
  by pat_completeness auto
termination
  by (relation "measure (\<lambda>(node, result). size node)")
     (auto dest: size_prop_children)

declare flattenAccessibilityTree.simps [simp del]

text \<open>
  The notions the statements about the flattening use: the children the loop visits
  (\<^verbatim>\<open>node.children\<close> when it is an array), the test under which a node is pushed,
  the nodes visited in the order of the visit, and the keys of the entry literal.
\<close>

definition children_of :: "jsval \<Rightarrow> jsval list" where
  "children_of node = (case get_prop node ''children'' of JArr cs \<Rightarrow> cs | _ \<Rightarrow> [])"

definition emitted :: "jsval \<Rightarrow> bool" where
  "emitted node = (get_prop node ''role'' \<noteq> JStr ''WebArea'' \<or> truthy (get_prop node ''name''))"

lemma size_children_of: "c \<in> set (children_of node) \<Longrightarrow> size c < size node"
  by (cases "get_prop node ''children''")
     (auto simp: children_of_def dest: size_prop_children)

function nodes_of :: "jsval \<Rightarrow> jsval list" where
  "nodes_of node =
     (if \<not> truthy node then [] else node # concat (map nodes_of (children_of node)))"
  by pat_completeness auto
termination
  by (relation "measure size") (auto dest: size_children_of)

declare nodes_of.simps [simp del]

definition entry_keys :: "string list" where
  "entry_keys =
     [''role'', ''name'', ''value'', ''description'', ''disabled'', ''focused'', ''selected'',
      ''checked'', ''expanded'', ''pressed'', ''readonly'', ''required'', ''level'',
      ''valuemin'', ''valuemax'', ''autocomplete'', ''haspopup'', ''invalid'', ''modal'',
      ''multiline'', ''multiselectable'', ''orientation'', ''keyshortcuts'',
      ''roledescription'', ''valuetext'']"

text \<open>
  The driver's snapshot gives \<^verbatim>\<open>role\<close> and \<^verbatim>\<open>name\<close> as strings, \<^verbatim>\<open>name\<close> being
  optional.  A tree is well typed when every visited node has them so.
\<close>

definition string_or_absent :: "jsval \<Rightarrow> bool" where
  "string_or_absent v = (case v of JUndefined \<Rightarrow> True | JStr s \<Rightarrow> True | _ \<Rightarrow> False)"

definition well_typed :: "jsval \<Rightarrow> bool" where
  "well_typed tree =
     list_all (\<lambda>n. string_or_absent (get_prop n ''name'') \<and> string_or_absent (get_prop n ''role''))
       (nodes_of tree)"

subsection \<open>Filtering and pagination\<close>

text \<open>
  A thrown JavaScript value, as the \<^verbatim>\<open>catch (e)\<close> of a tool sees it: an error object
  with its \<^verbatim>\<open>name\<close> and \<^verbatim>\<open>message\<close>.  \<^verbatim>\<open>exn_text\<close> is what the template
  \<^verbatim>\<open>${e}\<close> prints (\<^verbatim>\<open>Error.prototype.toString\<close>); a thrown string is an
  \<^verbatim>\<open>Exn\<close> with an empty name.
\<close>

datatype exn = Exn string string

fun exn_text :: "exn \<Rightarrow> string" where
  "exn_text (Exn nm msg) =
     (if nm = [] then msg else if msg = [] then nm else nm @ '': '' @ msg)"

text \<open>
  \<^verbatim>\<open>String.prototype.trim\<close> and \<^verbatim>\<open>String.prototype.toLowerCase\<close> belong to the
  JavaScript runtime and know all of Unicode.  The filters take them as they are given.
\<close>

record string_methods =
  trim :: "string \<Rightarrow> string"
  toLowerCase :: "string \<Rightarrow> string"

text \<open>
  \<^verbatim>\<open>Array.prototype.filter\<close> with a callback that may throw: the first throw ends
  the whole filter.
\<close>

fun filter_throwing :: "('a \<Rightarrow> exn + bool) \<Rightarrow> 'a list \<Rightarrow> exn + 'a list" where
  "filter_throwing p [] = Inr []"
| "filter_throwing p (x # xs) =
     (case p x of
        Inl e \<Rightarrow> Inl e
      | Inr b \<Rightarrow>
          (case filter_throwing p xs of
             Inl e \<Rightarrow> Inl e
           | Inr ys \<Rightarrow> Inr (if b then x # ys else ys)))"

text \<open>
  \<^verbatim>\<open>n => n.name && n.name.trim() !== ''\<close>.  A truthy name that is no string has no
  method \<^verbatim>\<open>trim\<close>, and the call throws a \<^verbatim>\<open>TypeError\<close>.
\<close>

definition has_name :: "string_methods \<Rightarrow> entry \<Rightarrow> exn + bool" where
  "has_name sm n =
     (let name = get_prop (JObj n) ''name'' in
      if \<not> truthy name then Inr False
      else case name of
             JStr s \<Rightarrow> Inr (trim sm s \<noteq> [])
           | _ \<Rightarrow> Inl (Exn ''TypeError'' ''n.name.trim is not a function''))"

text \<open>\<^verbatim>\<open>n => n.role && roleSet.has(n.role.toLowerCase())\<close>.\<close>

definition has_role :: "string_methods \<Rightarrow> string list \<Rightarrow> entry \<Rightarrow> exn + bool" where
  "has_role sm roleSet n =
     (let role = get_prop (JObj n) ''role'' in
      if \<not> truthy role then Inr False
      else case role of
             JStr s \<Rightarrow> Inr (toLowerCase sm s \<in> set roleSet)
           | _ \<Rightarrow> Inl (Exn ''TypeError'' ''n.role.toLowerCase is not a function''))"

text \<open>The two filters of \<^verbatim>\<open>getAccessibilityTreeTool\<close>, in the order of the source.\<close>

definition filter_nodes ::
  "string_methods \<Rightarrow> bool \<Rightarrow> string list option \<Rightarrow> entry list \<Rightarrow> exn + entry list" where
  "filter_nodes sm namedOnly roles nodes0 =
     (case (if namedOnly then filter_throwing (has_name sm) nodes0 else Inr nodes0) of
        Inl e \<Rightarrow> Inl e
      | Inr nodes1 \<Rightarrow>
          (case roles of
             Some rs \<Rightarrow>
               if length rs > 0
               then filter_throwing (has_role sm (map (toLowerCase sm) rs)) nodes1
               else Inr nodes1
           | None \<Rightarrow> Inr nodes1))"

record page =
  total :: nat
  showing :: nat
  hasMore :: bool
  nodes :: "entry list"

text \<open>
  \<^verbatim>\<open>limit\<close> and \<^verbatim>\<open>offset\<close> are JavaScript numbers: finite (fractions included),
  infinite or \<^verbatim>\<open>NaN\<close>.  The finite ones are taken as reals, without rounding.
\<close>

datatype number = Num real | PosInfinity | NegInfinity | NaN

text \<open>\<^verbatim>\<open>n > 0\<close>.\<close>

fun positive :: "number \<Rightarrow> bool" where
  "positive (Num x) = (0 < x)"
| "positive PosInfinity = True"
| "positive NegInfinity = False"
| "positive NaN = False"

text \<open>
  The index that \<^verbatim>\<open>Array.prototype.slice\<close> makes of an argument, for an array of
  length \<open>len\<close>: the number is truncated towards zero (\<^verbatim>\<open>NaN\<close> becomes 0), a negative
  result counts from the end, and the index is clamped to \<open>0 \<dots> len\<close>.
\<close>

fun slice_index :: "nat \<Rightarrow> number \<Rightarrow> nat" where
  "slice_index len (Num x) =
     (let r = (if x < 0 then \<lceil>x\<rceil> else \<lfloor>x\<rfloor>)
      in if r < 0 then nat (max (int len + r) 0) else min (nat r) len)"
| "slice_index len PosInfinity = len"
| "slice_index len NegInfinity = 0"
| "slice_index len NaN = 0"

text \<open>\<^verbatim>\<open>xs.slice(start)\<close> and \<^verbatim>\<open>xs.slice(0, end)\<close>.\<close>

definition slice_from :: "'a list \<Rightarrow> number \<Rightarrow> 'a list" where
  "slice_from xs start = drop (slice_index (length xs) start) xs"

definition slice_upto :: "'a list \<Rightarrow> number \<Rightarrow> 'a list" where
  "slice_upto xs stop = take (slice_index (length xs) stop) xs"

text \<open>\<^verbatim>\<open>offset + nodes.length < total\<close>, for the two lengths.\<close>

fun plus_less :: "number \<Rightarrow> nat \<Rightarrow> nat \<Rightarrow> bool" where
  "plus_less (Num x) n t = (x + real n < real t)"
| "plus_less PosInfinity n t = False"
| "plus_less NegInfinity n t = True"
| "plus_less NaN n t = False"

text \<open>The pagination and the \<^verbatim>\<open>result\<close> object.\<close>

definition paginate :: "entry list \<Rightarrow> number \<Rightarrow> number \<Rightarrow> page" where
  "paginate nodes0 limit offset =
     (let total = length nodes0;
          nodes1 = (if positive offset then slice_from nodes0 offset else nodes0);
          nodes2 = (if positive limit then slice_upto nodes1 limit else nodes1)
      in \<lparr>total = total,
          showing = length nodes2,
          hasMore = plus_less offset (length nodes2) total,
          nodes = nodes2\<rparr>)"

record accessibility_args =
  limit :: "number option"
  offset :: "number option"
  roles :: "string list option"
  namedOnly :: "bool option"

text \<open>From the snapshot to the \<^verbatim>\<open>result\<close> object, with the defaults of the destructuring.\<close>

definition snapshot_page :: "string_methods \<Rightarrow> accessibility_args \<Rightarrow> jsval \<Rightarrow> exn + page" where
  "snapshot_page sm args snapshot =
     (let lmt = (case limit args of None \<Rightarrow> Num 100 | Some l \<Rightarrow> l);
          off = (case offset args of None \<Rightarrow> Num 0 | Some v \<Rightarrow> v);
          named = (case namedOnly args of None \<Rightarrow> True | Some b \<Rightarrow> b)
      in case filter_nodes sm named (roles args) (flattenAccessibilityTree snapshot []) of
           Inl e \<Rightarrow> Inl e
         | Inr ns \<Rightarrow> Inr (paginate ns lmt off))"

text \<open>For the statements: a limit below zero.\<close>

fun negative :: "number \<Rightarrow> bool" where
  "negative (Num x) = (x < 0)"
| "negative PosInfinity = False"
| "negative NegInfinity = True"
| "negative NaN = False"

section \<open>The driver and the tools' result envelope\<close>

datatype direction = Up | Down | Left | Right

datatype scroll_direction = ScrollUp | ScrollDown

datatype orientation = PORTRAIT | LANDSCAPE

datatype element = Element nat

text \<open>An argument as \<^verbatim>\<open>browser.execute\<close> receives it: the raw value or an element handle.\<close>

datatype script_arg = Value jsval | Handle element

record geolocation =
  latitude :: jsval
  longitude :: jsval
  altitude :: jsval

text \<open>The calls a tool issues against the driver, with their arguments.\<close>

datatype call =
    Find string
  | ElementTap element
  | Tap real real
  | Swipe "direction option" real real
  | DragAndDropTo element element "real option"
  | DragAndDropBy element real real "real option"
  | IsExisting element
  | Execute string "script_arg list"
  | ScrollBy real
  | SetOrientation orientation
  | HideKeyboard
  | GetGeoLocation
  | SetGeoLocation real real "real option"
  | GetPuppeteer
  | Pages
  | Snapshot

text \<open>
  The driver is an external collaborator: each of its methods answers with a value or
  throws, and the answer may depend on every call issued before (the first argument).
  \<^verbatim>\<open>dollar\<close> is \<^verbatim>\<open>browser.$\<close>; \<^verbatim>\<open>scrollBy\<close> is \<^verbatim>\<open>browser.execute\<close> of the
  closure \<^verbatim>\<open>(amount) => window.scrollBy(0, amount)\<close>; \<^verbatim>\<open>pages\<close> answers the number
  of pages and \<^verbatim>\<open>snapshot\<close> the accessibility snapshot of the first one.
\<close>

record driver =
  isAndroid :: bool
  isIOS :: bool
  dollar :: "call list \<Rightarrow> string \<Rightarrow> exn + element"
  elementTap :: "call list \<Rightarrow> element \<Rightarrow> exn + unit"
  tap :: "call list \<Rightarrow> real \<Rightarrow> real \<Rightarrow> exn + unit"
  swipe :: "call list \<Rightarrow> direction option \<Rightarrow> real \<Rightarrow> real \<Rightarrow> exn + unit"
  dragAndDropTo :: "call list \<Rightarrow> element \<Rightarrow> element \<Rightarrow> real option \<Rightarrow> exn + unit"
  dragAndDropBy :: "call list \<Rightarrow> element \<Rightarrow> real \<Rightarrow> real \<Rightarrow> real option \<Rightarrow> exn + unit"
  isExisting :: "call list \<Rightarrow> element \<Rightarrow> exn + bool"
  execute :: "call list \<Rightarrow> string \<Rightarrow> script_arg list \<Rightarrow> exn + jsval"
  scrollBy :: "call list \<Rightarrow> real \<Rightarrow> exn + unit"
  setOrientation :: "call list \<Rightarrow> orientation \<Rightarrow> exn + unit"
  hideKeyboard :: "call list \<Rightarrow> exn + unit"
  getGeoLocation :: "call list \<Rightarrow> exn + geolocation"
  setGeoLocation :: "call list \<Rightarrow> real \<Rightarrow> real \<Rightarrow> real option \<Rightarrow> exn + unit"
  getPuppeteer :: "call list \<Rightarrow> exn + unit"
  pages :: "call list \<Rightarrow> exn + nat"
  snapshot :: "call list \<Rightarrow> exn + jsval"

text \<open>
  What a tool reads from its surroundings: \<^verbatim>\<open>getBrowser()\<close> (the driver, or a throw
  when there is no session), the type of the current session's metadata
  (\<^verbatim>\<open>metadata?.type\<close>, \<^verbatim>\<open>None\<close> when undefined), and the library functions whose
  output only appears inside success texts (number and value interpolation in a
  template, \<^verbatim>\<open>JSON.stringify(v, null, 2)\<close> and the TOON \<^verbatim>\<open>encode\<close>), and the
  string methods of the runtime.
\<close>

record env =
  getBrowser :: "exn + driver"
  sessionType :: "string option"
  show_number :: "real \<Rightarrow> string"
  show_value :: "jsval \<Rightarrow> string"
  json_stringify :: "jsval \<Rightarrow> exn + string"
  encode :: "page \<Rightarrow> string"
  strings :: string_methods

datatype content = Text string

text \<open>
  A tool body runs over the list of calls issued so far and ends with a value or a
  throw.  \<^verbatim>\<open>invoke\<close> issues one call: the call is recorded whether it throws or not.
\<close>

type_synonym 'a action = "call list \<Rightarrow> (exn + 'a) \<times> call list"

definition ret :: "'a \<Rightarrow> 'a action" where
  "ret v tr = (Inr v, tr)"

definition throw :: "exn \<Rightarrow> 'a action" where
  "throw e tr = (Inl e, tr)"

definition lift :: "exn + 'a \<Rightarrow> 'a action" where
  "lift r tr = (r, tr)"

definition bnd :: "'a action \<Rightarrow> ('a \<Rightarrow> 'b action) \<Rightarrow> 'b action" where
  "bnd m f tr = (case m tr of (Inl e, tr') \<Rightarrow> (Inl e, tr') | (Inr v, tr') \<Rightarrow> f v tr')"

definition invoke :: "call \<Rightarrow> (call list \<Rightarrow> exn + 'a) \<Rightarrow> 'a action" where
  "invoke c answer tr = (answer tr, tr @ [c])"

text \<open>
  The \<^verbatim>\<open>try { ... } catch (e) { return { content: [{ type: 'text', text: `Error ...: ${e}` }] } }\<close>
  around every tool body; the tool starts with no call issued.
\<close>

definition try_catch :: "string \<Rightarrow> content list action \<Rightarrow> content list \<times> call list" where
  "try_catch label body =
     (case body [] of
        (Inl e, tr) \<Rightarrow> ([Text (label @ exn_text e)], tr)
      | (Inr r, tr) \<Rightarrow> (r, tr))"

text \<open>
  For the statements about the envelope.  \<^verbatim>\<open>answer_fault\<close> is the fault, if any, with
  which the driver answers a call issued after the calls \<open>tr\<close>.  A tool result reports
  faults under a label when it is a single text block, when a throw of \<^verbatim>\<open>getBrowser\<close>
  gives the label followed by the text of the thrown value and no call, and when a call
  of the tool that the driver answers with a fault is the last call and gives the label
  followed by the text of the fault; the calls in \<open>swallowed\<close> are left out of this.
\<close>

definition single_text :: "content list action \<Rightarrow> bool" where
  "single_text m = (\<forall>tr r tr'. m tr = (Inr r, tr') \<longrightarrow> (\<exists>t. r = [Text t]))"

fun fault_of :: "exn + 'a \<Rightarrow> exn option" where
  "fault_of (Inl e) = Some e"
| "fault_of (Inr v) = None"

fun answer_fault :: "driver \<Rightarrow> call list \<Rightarrow> call \<Rightarrow> exn option" where
  "answer_fault b tr (Find s) = fault_of (dollar b tr s)"
| "answer_fault b tr (ElementTap el) = fault_of (elementTap b tr el)"
| "answer_fault b tr (Tap x y) = fault_of (tap b tr x y)"
| "answer_fault b tr (Swipe fd du pc) = fault_of (swipe b tr fd du pc)"
| "answer_fault b tr (DragAndDropTo src tgt du) = fault_of (dragAndDropTo b tr src tgt du)"
| "answer_fault b tr (DragAndDropBy src x y du) = fault_of (dragAndDropBy b tr src x y du)"
| "answer_fault b tr (IsExisting el) = fault_of (isExisting b tr el)"
| "answer_fault b tr (Execute script as) = fault_of (execute b tr script as)"
| "answer_fault b tr (ScrollBy amount) = fault_of (scrollBy b tr amount)"
| "answer_fault b tr (SetOrientation orient) = fault_of (setOrientation b tr orient)"
| "answer_fault b tr HideKeyboard = fault_of (hideKeyboard b tr)"
| "answer_fault b tr GetGeoLocation = fault_of (getGeoLocation b tr)"
| "answer_fault b tr (SetGeoLocation lat lon alt) = fault_of (setGeoLocation b tr lat lon alt)"
| "answer_fault b tr GetPuppeteer = fault_of (getPuppeteer b tr)"
| "answer_fault b tr Pages = fault_of (pages b tr)"
| "answer_fault b tr Snapshot = fault_of (snapshot b tr)"

fun is_lookup :: "call \<Rightarrow> bool" where
  "is_lookup (Find s) = True"
| "is_lookup (IsExisting el) = True"
| "is_lookup c = False"

definition swallows_nothing :: "call \<Rightarrow> bool" where
  "swallows_nothing c = False"

definition reports_faults ::
  "string \<Rightarrow> (call \<Rightarrow> bool) \<Rightarrow> env \<Rightarrow> content list \<times> call list \<Rightarrow> bool" where
  "reports_faults label swallowed ev res =
     ((\<exists>t. fst res = [Text t])
      \<and> (\<forall>e. getBrowser ev = Inl e \<longrightarrow> res = ([Text (label @ exn_text e)], []))
      \<and> (\<forall>browser tr c rest e.
            getBrowser ev = Inr browser \<and> snd res = tr @ c # rest
            \<and> \<not> swallowed c \<and> answer_fault browser tr c = Some e
            \<longrightarrow> rest = [] \<and> fst res = [Text (label @ exn_text e)]))"

text \<open>
  A body keeps faults last when, from any calls issued before, it only adds calls, and
  a call it adds that the driver answers with a fault is the last one and makes the
  body throw that fault; the calls in \<open>sw\<close> are left out of this.
\<close>

definition faults_last :: "(call \<Rightarrow> bool) \<Rightarrow> driver \<Rightarrow> 'a action \<Rightarrow> bool" where
  "faults_last sw b m =
     (\<forall>tr0 r tr1. m tr0 = (r, tr1) \<longrightarrow>
        (\<exists>added. tr1 = tr0 @ added
           \<and> (\<forall>pre c rest e.
                 added = pre @ c # rest \<and> \<not> sw c \<and> answer_fault b (tr0 @ pre) c = Some e
                 \<longrightarrow> rest = [] \<and> r = Inl e)))"

section \<open>Gesture tools\<close>

text \<open>\<^verbatim>\<open>tapElementTool\<close>; \<^verbatim>\<open>if (selector)\<close> holds for a non-empty string.\<close>

definition tapElement_body ::
  "env \<Rightarrow> string option \<Rightarrow> real option \<Rightarrow> real option \<Rightarrow> content list action" where
  "tapElement_body ev selector x y =
     bnd (lift (getBrowser ev)) (\<lambda>browser.
       let by_coordinates =
             (case (x, y) of
                (Some xv, Some yv) \<Rightarrow>
                  bnd (invoke (Tap xv yv) (\<lambda>tr. tap browser tr xv yv)) (\<lambda>_.
                  ret [Text (''Tapped at coordinates: ('' @ show_number ev xv @ '', ''
                             @ show_number ev yv @ '')'')])
              | _ \<Rightarrow> ret [Text ''Error: Must provide either selector or x,y coordinates''])
       in case selector of
            Some s \<Rightarrow>
              if s \<noteq> [] then
                bnd (invoke (Find s) (\<lambda>tr. dollar browser tr s)) (\<lambda>el.
                bnd (invoke (ElementTap el) (\<lambda>tr. elementTap browser tr el)) (\<lambda>_.
                ret [Text (''Tapped element: '' @ s)]))
              else by_coordinates
          | None \<Rightarrow> by_coordinates)"

definition tapElementTool ::
  "env \<Rightarrow> string option \<Rightarrow> real option \<Rightarrow> real option \<Rightarrow> content list \<times> call list" where
  "tapElementTool ev selector x y =
     try_catch ''Error tapping: '' (tapElement_body ev selector x y)"

text \<open>The table \<^verbatim>\<open>contentToFingerDirection\<close> and the read \<^verbatim>\<open>contentToFingerDirection[direction]\<close>.\<close>

definition contentToFingerDirection :: "(direction \<times> direction) list" where
  "contentToFingerDirection = [(Up, Down), (Down, Up), (Left, Right), (Right, Left)]"

definition fingerDirection :: "direction \<Rightarrow> direction option" where
  "fingerDirection d = map_of contentToFingerDirection d"

fun direction_name :: "direction \<Rightarrow> string" where
  "direction_name Up = ''up''"
| "direction_name Down = ''down''"
| "direction_name Left = ''left''"
| "direction_name Right = ''right''"

text \<open>\<^verbatim>\<open>swipeTool\<close>; \<^verbatim>\<open>v ?? d\<close> on an optional number.\<close>

definition effectivePercent :: "direction \<Rightarrow> real option \<Rightarrow> real" where
  "effectivePercent d percent =
     (let isVertical = (d = Up \<or> d = Down);
          defaultPercent = (if isVertical then 0.5 else 0.95)
      in case percent of None \<Rightarrow> defaultPercent | Some p \<Rightarrow> p)"

definition effectiveDuration :: "real option \<Rightarrow> real" where
  "effectiveDuration duration = (case duration of None \<Rightarrow> 500 | Some t \<Rightarrow> t)"

definition swipe_body :: "env \<Rightarrow> direction \<Rightarrow> real option \<Rightarrow> real option \<Rightarrow> content list action" where
  "swipe_body ev d duration percent =
     bnd (lift (getBrowser ev)) (\<lambda>browser.
       let pc = effectivePercent d percent;
           du = effectiveDuration duration;
           fd = fingerDirection d
       in bnd (invoke (Swipe fd du pc) (\<lambda>tr. swipe browser tr fd du pc)) (\<lambda>_.
          ret [Text (''Swiped '' @ direction_name d)]))"

definition swipeTool ::
  "env \<Rightarrow> direction \<Rightarrow> real option \<Rightarrow> real option \<Rightarrow> content list \<times> call list" where
  "swipeTool ev d duration percent =
     try_catch ''Error swiping: '' (swipe_body ev d duration percent)"

text \<open>\<^verbatim>\<open>dragAndDropTool\<close>.\<close>

definition dragAndDrop_body ::
  "env \<Rightarrow> string \<Rightarrow> string option \<Rightarrow> real option \<Rightarrow> real option \<Rightarrow> real option
   \<Rightarrow> content list action" where
  "dragAndDrop_body ev sourceSelector targetSelector x y duration =
     bnd (lift (getBrowser ev)) (\<lambda>browser.
     bnd (invoke (Find sourceSelector) (\<lambda>tr. dollar browser tr sourceSelector)) (\<lambda>src.
       let by_offset =
             (case (x, y) of
                (Some xv, Some yv) \<Rightarrow>
                  bnd (invoke (DragAndDropBy src xv yv duration)
                         (\<lambda>tr. dragAndDropBy browser tr src xv yv duration)) (\<lambda>_.
                  ret [Text (''Dragged '' @ sourceSelector @ '' by ('' @ show_number ev xv
                             @ '', '' @ show_number ev yv @ '')'')])
              | _ \<Rightarrow> ret [Text ''Error: Must provide either targetSelector or x,y coordinates''])
       in case targetSelector of
            Some t \<Rightarrow>
              if t \<noteq> [] then
                bnd (invoke (Find t) (\<lambda>tr. dollar browser tr t)) (\<lambda>tgt.
                bnd (invoke (DragAndDropTo src tgt duration)
                       (\<lambda>tr. dragAndDropTo browser tr src tgt duration)) (\<lambda>_.
                ret [Text (''Dragged '' @ sourceSelector @ '' to '' @ t)]))
              else by_offset
          | None \<Rightarrow> by_offset))"

definition dragAndDropTool ::
  "env \<Rightarrow> string \<Rightarrow> string option \<Rightarrow> real option \<Rightarrow> real option \<Rightarrow> real option
   \<Rightarrow> content list \<times> call list" where
  "dragAndDropTool ev sourceSelector targetSelector x y duration =
     try_catch ''Error dragging: '' (dragAndDrop_body ev sourceSelector targetSelector x y duration)"

section \<open>Script execution\<close>

definition startsWith :: "string \<Rightarrow> string \<Rightarrow> bool" where
  "startsWith s p = (take (length p) s = p)"

text \<open>
  \<^verbatim>\<open>Promise.all(scriptArgs.map(async (arg) => ...))\<close>.  \<^verbatim>\<open>map\<close> starts the callback of
  every argument in turn, and each callback runs up to its first \<^verbatim>\<open>await\<close>: for a
  string argument of a script that is no mobile command that is the lookup
  \<^verbatim>\<open>browser.$(arg)\<close>.  So every lookup is issued, in the order of the arguments, before
  any callback goes on.  A lookup that throws is caught inside the callback.
\<close>

definition lookupArg :: "driver \<Rightarrow> string \<Rightarrow> jsval \<Rightarrow> element option action" where
  "lookupArg browser script arg =
     (case arg of
        JStr s \<Rightarrow>
          if \<not> startsWith script ''mobile:'' then
            (\<lambda>tr.
               case invoke (Find s) (\<lambda>tr. dollar browser tr s) tr of
                 (Inl e, tr') \<Rightarrow> (Inr None, tr')
               | (Inr el, tr') \<Rightarrow> (Inr (Some el), tr'))
          else ret None
      | _ \<Rightarrow> ret None)"

fun lookupArgs :: "driver \<Rightarrow> string \<Rightarrow> jsval list \<Rightarrow> element option list action" where
  "lookupArgs browser script [] = ret []"
| "lookupArgs browser script (arg # rest) =
     bnd (lookupArg browser script arg) (\<lambda>found.
     bnd (lookupArgs browser script rest) (\<lambda>founds.
     ret (found # founds)))"

text \<open>
  The rest of a callback: with an element, \<^verbatim>\<open>element.isExisting()\<close> decides between
  the element and the argument as it is; a throw is caught and leaves the argument as
  it is.  The callbacks go on in the order of the arguments, and \<^verbatim>\<open>Promise.all\<close>
  gives the results in that order.
\<close>

definition settleArg :: "driver \<Rightarrow> jsval \<Rightarrow> element option \<Rightarrow> script_arg action" where
  "settleArg browser arg found =
     (case found of
        Some el \<Rightarrow>
          (\<lambda>tr.
             case invoke (IsExisting el) (\<lambda>tr. isExisting browser tr el) tr of
               (Inl e, tr') \<Rightarrow> (Inr (Value arg), tr')
             | (Inr ex, tr') \<Rightarrow> (Inr (if ex then Handle el else Value arg), tr'))
      | None \<Rightarrow> ret (Value arg))"

fun settleArgs :: "driver \<Rightarrow> (jsval \<times> element option) list \<Rightarrow> script_arg list action" where
  "settleArgs browser [] = ret []"
| "settleArgs browser ((arg, found) # rest) =
     bnd (settleArg browser arg found) (\<lambda>r.
     bnd (settleArgs browser rest) (\<lambda>rs.
     ret (r # rs)))"

definition resolveArgs :: "driver \<Rightarrow> string \<Rightarrow> jsval list \<Rightarrow> script_arg list action" where
  "resolveArgs browser script args =
     bnd (lookupArgs browser script args) (\<lambda>founds.
     settleArgs browser (zip args founds))"

fun is_object :: "jsval \<Rightarrow> bool" where
  "is_object (JArr vs) = True"
| "is_object (JObj ps) = True"
| "is_object v = False"

definition resultText :: "env \<Rightarrow> jsval \<Rightarrow> string" where
  "resultText ev result =
     (if result = JUndefined \<or> result = JNull
      then ''Script executed successfully (no return value)''
      else if is_object result then
        (case json_stringify ev result of
           Inr txt \<Rightarrow> ''Result: '' @ txt
         | Inl e \<Rightarrow> ''Result: '' @ show_value ev result)
      else ''Result: '' @ show_value ev result)"

definition executeScript_body :: "env \<Rightarrow> string \<Rightarrow> jsval list option \<Rightarrow> content list action" where
  "executeScript_body ev script args =
     bnd (lift (getBrowser ev)) (\<lambda>browser.
       let scriptArgs = (case args of None \<Rightarrow> [] | Some as \<Rightarrow> as)
       in bnd (resolveArgs browser script scriptArgs) (\<lambda>resolvedArgs.
          bnd (invoke (Execute script resolvedArgs)
                 (\<lambda>tr. execute browser tr script resolvedArgs)) (\<lambda>result.
          ret [Text (resultText ev result)])))"

definition executeScriptTool ::
  "env \<Rightarrow> string \<Rightarrow> jsval list option \<Rightarrow> content list \<times> call list" where
  "executeScriptTool ev script args =
     try_catch ''Error executing script: '' (executeScript_body ev script args)"

section \<open>Scroll, accessibility and device tools\<close>

fun scroll_direction_name :: "scroll_direction \<Rightarrow> string" where
  "scroll_direction_name ScrollUp = ''up''"
| "scroll_direction_name ScrollDown = ''down''"

text \<open>\<^verbatim>\<open>scrollTool\<close>, with the default \<^verbatim>\<open>pixels = 500\<close>.\<close>

definition scroll_body :: "env \<Rightarrow> scroll_direction \<Rightarrow> real option \<Rightarrow> content list action" where
  "scroll_body ev d pixels_arg =
     (let pixels = (case pixels_arg of None \<Rightarrow> 500 | Some p \<Rightarrow> p) in
      bnd (lift (getBrowser ev)) (\<lambda>browser.
        if sessionType ev \<noteq> Some ''browser'' then
          throw (Exn ''Error'' ''scroll only works in browser sessions. For mobile, use the swipe tool.'')
        else
          let scrollAmount = (if d = ScrollDown then pixels else - pixels)
          in bnd (invoke (ScrollBy scrollAmount) (\<lambda>tr. scrollBy browser tr scrollAmount)) (\<lambda>_.
             ret [Text (''Scrolled '' @ scroll_direction_name d @ '' '' @ show_number ev pixels
                        @ '' pixels'')])))"

definition scrollTool :: "env \<Rightarrow> scroll_direction \<Rightarrow> real option \<Rightarrow> content list \<times> call list" where
  "scrollTool ev d pixels_arg = try_catch ''Error scrolling: '' (scroll_body ev d pixels_arg)"

text \<open>
  \<^verbatim>\<open>String.prototype.replace\<close> with a global pattern that is a literal text: every
  match from left to right, none overlapping.
\<close>

fun replace_all :: "string \<Rightarrow> string \<Rightarrow> string \<Rightarrow> string" where
  "replace_all pat rep [] = []"
| "replace_all pat rep (c # cs) =
     (if pat \<noteq> [] \<and> take (length pat) (c # cs) = pat
      then rep @ replace_all pat rep (drop (length pat - 1) cs)
      else c # replace_all pat rep cs)"

definition strip_empty_strings :: "string \<Rightarrow> string" where
  "strip_empty_strings txt =
     replace_all [CHR 0x22, CHR 0x22, CHR '',''] '',''
       (replace_all [CHR '','', CHR 0x22, CHR 0x22] '','' txt)"

text \<open>\<^verbatim>\<open>getAccessibilityTreeTool\<close>.\<close>

definition getAccessibilityTree_body :: "env \<Rightarrow> accessibility_args \<Rightarrow> content list action" where
  "getAccessibilityTree_body ev args =
     bnd (lift (getBrowser ev)) (\<lambda>browser.
       if isAndroid browser \<or> isIOS browser then
         ret [Text ''Error: get_accessibility is browser-only. For mobile apps, use get_visible_elements instead.'']
       else
         bnd (invoke GetPuppeteer (\<lambda>tr. getPuppeteer browser tr)) (\<lambda>_.
         bnd (invoke Pages (\<lambda>tr. pages browser tr)) (\<lambda>n.
           if n = 0 then ret [Text ''No active pages found'']
           else
             bnd (invoke Snapshot (\<lambda>tr. snapshot browser tr)) (\<lambda>snap.
               if \<not> truthy snap then ret [Text ''No accessibility tree available'']
               else
                 bnd (lift (snapshot_page (strings ev) args snap)) (\<lambda>result.
                 ret [Text (strip_empty_strings (encode ev result))])))))"

definition getAccessibilityTreeTool :: "env \<Rightarrow> accessibility_args \<Rightarrow> content list \<times> call list" where
  "getAccessibilityTreeTool ev args =
     try_catch ''Error getting accessibility tree: '' (getAccessibilityTree_body ev args)"

fun orientation_name :: "orientation \<Rightarrow> string" where
  "orientation_name PORTRAIT = ''PORTRAIT''"
| "orientation_name LANDSCAPE = ''LANDSCAPE''"

definition rotateDevice_body :: "env \<Rightarrow> orientation \<Rightarrow> content list action" where
  "rotateDevice_body ev orient =
     bnd (lift (getBrowser ev)) (\<lambda>browser.
     bnd (invoke (SetOrientation orient) (\<lambda>tr. setOrientation browser tr orient)) (\<lambda>_.
     ret [Text (''Device rotated to: '' @ orientation_name orient)]))"

definition rotateDeviceTool :: "env \<Rightarrow> orientation \<Rightarrow> content list \<times> call list" where
  "rotateDeviceTool ev orient = try_catch ''Error rotating device: '' (rotateDevice_body ev orient)"

definition hideKeyboard_body :: "env \<Rightarrow> content list action" where
  "hideKeyboard_body ev =
     bnd (lift (getBrowser ev)) (\<lambda>browser.
     bnd (invoke HideKeyboard (\<lambda>tr. hideKeyboard browser tr)) (\<lambda>_.
     ret [Text ''Keyboard hidden'']))"

definition hideKeyboardTool :: "env \<Rightarrow> content list \<times> call list" where
  "hideKeyboardTool ev = try_catch ''Error hiding keyboard: '' (hideKeyboard_body ev)"

definition getGeolocation_body :: "env \<Rightarrow> content list action" where
  "getGeolocation_body ev =
     bnd (lift (getBrowser ev)) (\<lambda>browser.
     bnd (invoke GetGeoLocation (\<lambda>tr. getGeoLocation browser tr)) (\<lambda>location.
     ret [Text (''Location:'' @ [CHR 0x0A] @ ''  Latitude: '' @ show_value ev (latitude location)
                @ [CHR 0x0A] @ ''  Longitude: '' @ show_value ev (longitude location)
                @ [CHR 0x0A] @ ''  Altitude: ''
                @ show_value ev (js_or (altitude location) (JStr ''N/A'')))]))"

definition getGeolocationTool :: "env \<Rightarrow> content list \<times> call list" where
  "getGeolocationTool ev = try_catch ''Error getting geolocation: '' (getGeolocation_body ev)"

definition setGeolocation_body :: "env \<Rightarrow> real \<Rightarrow> real \<Rightarrow> real option \<Rightarrow> content list action" where
  "setGeolocation_body ev lat lon alt =
     bnd (lift (getBrowser ev)) (\<lambda>browser.
     bnd (invoke (SetGeoLocation lat lon alt) (\<lambda>tr. setGeoLocation browser tr lat lon alt)) (\<lambda>_.
     ret [Text (''Geolocation set to:'' @ [CHR 0x0A] @ ''  Latitude: '' @ show_number ev lat
                @ [CHR 0x0A] @ ''  Longitude: '' @ show_number ev lon
                @ (case alt of
                     Some a \<Rightarrow>
                       if a \<noteq> 0 then [CHR 0x0A] @ ''  Altitude: '' @ show_number ev a @ ''m''
                       else []
                   | None \<Rightarrow> []))]))"

definition setGeolocationTool :: "env \<Rightarrow> real \<Rightarrow> real \<Rightarrow> real option \<Rightarrow> content list \<times> call list" where
  "setGeolocationTool ev lat lon alt =
     try_catch ''Error setting geolocation: '' (setGeolocation_body ev lat lon alt)"

section \<open>Sample values\<close>

text \<open>A small tree with an unnamed \<^verbatim>\<open>WebArea\<close> at the root and one below it.\<close>

definition collapsed_menu :: jsval where
  "collapsed_menu =
     JObj [(''role'', JStr ''button''), (''name'', JStr ''Menu''), (''expanded'', JBool False)]"

definition home_link :: jsval where
  "home_link = JObj [(''role'', JStr ''link''), (''name'', JStr ''Home'')]"

definition inner_area :: jsval where
  "inner_area = JObj [(''role'', JStr ''WebArea''), (''children'', JArr [home_link])]"

definition sample_tree :: jsval where
  "sample_tree =
     JObj [(''role'', JStr ''WebArea''), (''name'', JStr ''''),
           (''children'', JArr [collapsed_menu, inner_area])]"

text \<open>
  String methods for the sample texts, which are in ASCII, where they do what the methods
  of JavaScript do: \<^verbatim>\<open>trim\<close> strips tab, line feed, vertical tab, form feed, carriage
  return and space; \<^verbatim>\<open>toLowerCase\<close> maps \<^verbatim>\<open>A\<close> to \<^verbatim>\<open>Z\<close>.
\<close>

definition is_space :: "char \<Rightarrow> bool" where
  "is_space c = (of_char c \<in> {9::nat, 10, 11, 12, 13, 32})"

definition lower_char :: "char \<Rightarrow> char" where
  "lower_char c =
     (if (65::nat) \<le> of_char c \<and> of_char c \<le> (90::nat)
      then char_of (of_char c + (32::nat)) else c)"

definition ascii_strings :: string_methods where
  "ascii_strings =
     \<lparr>trim = (\<lambda>s. rev (dropWhile is_space (rev (dropWhile is_space s)))),
      toLowerCase = map lower_char\<rparr>"

text \<open>A page root with five named buttons.\<close>

definition named_button :: "string \<Rightarrow> jsval" where
  "named_button s = JObj [(''role'', JStr ''button''), (''name'', JStr s)]"

definition five_buttons :: jsval where
  "five_buttons =
     JObj [(''role'', JStr ''WebArea''),
           (''children'', JArr [named_button ''A'', named_button ''B'', named_button ''C'',
                                named_button ''D'', named_button ''E''])]"

text \<open>
  A driver that answers every call, except that hiding the keyboard throws, and the
  surroundings of a tool with this driver and a given session type.
\<close>

definition stub_driver :: driver where
  "stub_driver =
     \<lparr>isAndroid = False, isIOS = False,
      dollar = (\<lambda>tr s. Inr (Element (length s))),
      elementTap = (\<lambda>tr el. Inr ()),
      tap = (\<lambda>tr x y. Inr ()),
      swipe = (\<lambda>tr d du pc. Inr ()),
      dragAndDropTo = (\<lambda>tr src tgt du. Inr ()),
      dragAndDropBy = (\<lambda>tr src x y du. Inr ()),
      isExisting = (\<lambda>tr el. Inr True),
      execute = (\<lambda>tr script as. Inr JUndefined),
      scrollBy = (\<lambda>tr amount. Inr ()),
      setOrientation = (\<lambda>tr orient. Inr ()),
      hideKeyboard = (\<lambda>tr. Inl (Exn ''Error'' ''keyboard is not shown'')),
      getGeoLocation = (\<lambda>tr. Inr \<lparr>latitude = JNum 0, longitude = JNum 0, altitude = JUndefined\<rparr>),
      setGeoLocation = (\<lambda>tr lat lon alt. Inr ()),
      getPuppeteer = (\<lambda>tr. Inr ()),
      pages = (\<lambda>tr. Inr 1),
      snapshot = (\<lambda>tr. Inr five_buttons)\<rparr>"

definition stub_env :: "string option \<Rightarrow> env" where
  "stub_env kind =
     \<lparr>getBrowser = Inr stub_driver,
      sessionType = kind,
      show_number = (\<lambda>x. ''n''),
      show_value = (\<lambda>v. ''v''),
      json_stringify = (\<lambda>v. Inr ''{}''),
      encode = (\<lambda>p. ''toon''),
      strings = ascii_strings\<rparr>"

text \<open>The same driver with lookups that throw, and its surroundings.\<close>

definition lost_driver :: driver where
  "lost_driver = stub_driver\<lparr>dollar := (\<lambda>tr s. Inl (Exn ''Error'' ''invalid selector''))\<rparr>"

definition lost_env :: env where
  "lost_env = (stub_env None)\<lparr>getBrowser := Inr lost_driver\<rparr>"

section \<open>Properties of the flattening\<close>

lemma flatten_falsy: "\<not> truthy node \<Longrightarrow> flattenAccessibilityTree node acc = acc"
  using flattenAccessibilityTree.simps [of node acc] by simp

lemma flatten_step:
  "truthy node \<Longrightarrow>
   flattenAccessibilityTree node acc
   = fold flattenAccessibilityTree (children_of node)
       (if emitted node then acc @ [entry_of node] else acc)"
  using flattenAccessibilityTree.simps [of node acc]
  by (cases "get_prop node ''children''") (simp_all add: children_of_def emitted_def)

lemma fold_flatten:
  assumes "\<And>c acc. c \<in> set cs \<Longrightarrow> flattenAccessibilityTree c acc = acc @ flattenAccessibilityTree c []"
  shows "fold flattenAccessibilityTree cs acc
         = acc @ concat (map (\<lambda>c. flattenAccessibilityTree c []) cs)"
  using assms
proof (induction cs arbitrary: acc)
  case Nil
  show ?case by simp
next
  case (Cons c cs)
  have head: "flattenAccessibilityTree c acc = acc @ flattenAccessibilityTree c []"
    by (rule Cons.prems) simp
  have tail: "fold flattenAccessibilityTree cs (acc @ flattenAccessibilityTree c [])
        = (acc @ flattenAccessibilityTree c []) @ concat (map (\<lambda>c. flattenAccessibilityTree c []) cs)"
  proof (rule Cons.IH)
    fix d acc'
    assume "d \<in> set cs"
    then have "d \<in> set (c # cs)" by simp
    then show "flattenAccessibilityTree d acc' = acc' @ flattenAccessibilityTree d []"
      by (rule Cons.prems)
  qed
  have "fold flattenAccessibilityTree (c # cs) acc
        = fold flattenAccessibilityTree cs (flattenAccessibilityTree c acc)"
    by simp
  also have "\<dots> = fold flattenAccessibilityTree cs (acc @ flattenAccessibilityTree c [])"
    by (simp only: head)
  also note tail
  finally show ?case by simp
qed

lemma flatten_acc:
  "flattenAccessibilityTree node acc = acc @ flattenAccessibilityTree node []"
proof (induction node acc rule: flattenAccessibilityTree.induct)
  case (1 node result)
  show ?case
  proof (cases "truthy node")
    case False
    then show ?thesis by (simp add: flatten_falsy)
  next
    case True
    have ih: "flattenAccessibilityTree c acc = acc @ flattenAccessibilityTree c []"
      if "c \<in> set (children_of node)" for c acc
    proof (cases "get_prop node ''children''")
      case (JArr cs)
      with that have "c \<in> set cs" by (simp add: children_of_def)
      with "1.IH" True JArr show ?thesis by blast
    qed (use that in \<open>simp_all add: children_of_def\<close>)
    have f: "fold flattenAccessibilityTree (children_of node) acc
             = acc @ concat (map (\<lambda>c. flattenAccessibilityTree c []) (children_of node))" for acc
      by (rule fold_flatten) (rule ih)
    show ?thesis
      by (simp only: flatten_step [OF True] f) simp
  qed
qed

lemma flatten_unfold:
  assumes "truthy node"
  shows "flattenAccessibilityTree node acc
   = acc @ (if emitted node then [entry_of node] else [])
         @ concat (map (\<lambda>c. flattenAccessibilityTree c []) (children_of node))"
proof -
  have f: "fold flattenAccessibilityTree (children_of node) acc
           = acc @ concat (map (\<lambda>c. flattenAccessibilityTree c []) (children_of node))" for acc
    by (rule fold_flatten) (rule flatten_acc)
  show ?thesis
    by (simp only: flatten_step [OF assms] f) simp
qed


lemma concat_map_concat:
  "concat (map f (concat xss)) = concat (map (\<lambda>xs. concat (map f xs)) xss)"
  by (induction xss) auto

lemma flatten_nodes_of:
  "flattenAccessibilityTree tree [] =
   concat (map (\<lambda>n. if emitted n then [entry_of n] else []) (nodes_of tree))"
proof (induction tree rule: nodes_of.induct)
  case (1 node)
  show ?case
  proof (cases "truthy node")
    case False
    then show ?thesis by (simp add: flatten_falsy nodes_of.simps)
  next
    case True
    have kids: "map (\<lambda>c. flattenAccessibilityTree c []) (children_of node)
          = map (\<lambda>c. concat (map (\<lambda>n. if emitted n then [entry_of n] else []) (nodes_of c)))
              (children_of node)"
      using "1.IH" True by (intro map_cong) auto
    have "concat (map (\<lambda>n. if emitted n then [entry_of n] else []) (nodes_of node))
          = (if emitted node then [entry_of node] else [])
            @ concat (map (\<lambda>c. concat (map (\<lambda>n. if emitted n then [entry_of n] else [])
                                      (nodes_of c))) (children_of node))"
      using True by (simp add: nodes_of.simps [of node] concat_map_concat map_map o_def)
    then show ?thesis
      by (simp only: flatten_unfold [OF True] kids append_Nil)
  qed
qed


lemma flatten_mem:
  "e \<in> set (flattenAccessibilityTree tree []) \<Longrightarrow> \<exists>n \<in> set (nodes_of tree). e = entry_of n"
  by (auto simp: flatten_nodes_of split: if_splits)

lemma keys_entry_of: "map fst (entry_of n) = entry_keys"
  by (simp add: entry_of_def entry_keys_def)

lemma entry_lookup:
  "map_of (entry_of n) ''role'' = Some (js_or (get_prop n ''role'') (JStr ''''))"
  "map_of (entry_of n) ''name'' = Some (js_or (get_prop n ''name'') (JStr ''''))"
  "map_of (entry_of n) ''value'' = Some (nullish (get_prop n ''value'') (JStr ''''))"
  "map_of (entry_of n) ''description'' = Some (js_or (get_prop n ''description'') (JStr ''''))"
  "map_of (entry_of n) ''disabled'' = Some (flag (get_prop n ''disabled''))"
  "map_of (entry_of n) ''focused'' = Some (flag (get_prop n ''focused''))"
  "map_of (entry_of n) ''selected'' = Some (flag (get_prop n ''selected''))"
  "map_of (entry_of n) ''checked'' = Some (tristate (get_prop n ''checked''))"
  "map_of (entry_of n) ''expanded'' = Some (bistate (get_prop n ''expanded''))"
  "map_of (entry_of n) ''pressed'' = Some (tristate (get_prop n ''pressed''))"
  "map_of (entry_of n) ''readonly'' = Some (flag (get_prop n ''readonly''))"
  "map_of (entry_of n) ''required'' = Some (flag (get_prop n ''required''))"
  "map_of (entry_of n) ''level'' = Some (nullish (get_prop n ''level'') (JStr ''''))"
  "map_of (entry_of n) ''valuemin'' = Some (nullish (get_prop n ''valuemin'') (JStr ''''))"
  "map_of (entry_of n) ''valuemax'' = Some (nullish (get_prop n ''valuemax'') (JStr ''''))"
  "map_of (entry_of n) ''autocomplete'' = Some (js_or (get_prop n ''autocomplete'') (JStr ''''))"
  "map_of (entry_of n) ''haspopup'' = Some (js_or (get_prop n ''haspopup'') (JStr ''''))"
  "map_of (entry_of n) ''invalid'' = Some (flag (get_prop n ''invalid''))"
  "map_of (entry_of n) ''modal'' = Some (flag (get_prop n ''modal''))"
  "map_of (entry_of n) ''multiline'' = Some (flag (get_prop n ''multiline''))"
  "map_of (entry_of n) ''multiselectable'' = Some (flag (get_prop n ''multiselectable''))"
  "map_of (entry_of n) ''orientation'' = Some (js_or (get_prop n ''orientation'') (JStr ''''))"
  "map_of (entry_of n) ''keyshortcuts'' = Some (js_or (get_prop n ''keyshortcuts'') (JStr ''''))"
  "map_of (entry_of n) ''roledescription'' = Some (js_or (get_prop n ''roledescription'') (JStr ''''))"
  "map_of (entry_of n) ''valuetext'' = Some (js_or (get_prop n ''valuetext'') (JStr ''''))"
  by (simp_all add: entry_of_def)

lemma undefined_serialised:
  "js_or JUndefined (JStr '''') = JStr ''''" "nullish JUndefined (JStr '''') = JStr ''''"
  "flag JUndefined = JStr ''''" "tristate JUndefined = JStr ''''" "bistate JUndefined = JStr ''''"
  by (simp_all add: js_or_def nullish_def flag_def tristate_def bistate_def)

lemma missing_attribute:
  assumes "k \<in> set entry_keys" and "get_prop n k = JUndefined"
  shows "map_of (entry_of n) k = Some (JStr '''')"
proof -
  from assms(1) have
    "k = ''role'' \<or> k = ''name'' \<or> k = ''value'' \<or> k = ''description'' \<or> k = ''disabled''
     \<or> k = ''focused'' \<or> k = ''selected'' \<or> k = ''checked'' \<or> k = ''expanded''
     \<or> k = ''pressed'' \<or> k = ''readonly'' \<or> k = ''required'' \<or> k = ''level''
     \<or> k = ''valuemin'' \<or> k = ''valuemax'' \<or> k = ''autocomplete'' \<or> k = ''haspopup''
     \<or> k = ''invalid'' \<or> k = ''modal'' \<or> k = ''multiline'' \<or> k = ''multiselectable''
     \<or> k = ''orientation'' \<or> k = ''keyshortcuts'' \<or> k = ''roledescription''
     \<or> k = ''valuetext''"
    by (simp add: entry_keys_def)
  then show ?thesis
    using assms(2)
    by (elim disjE) (simp_all only: entry_lookup undefined_serialised)
qed

lemma tri_cases: "tristate v \<in> {JStr ''true'', JStr ''false'', JStr ''mixed'', JStr ''''}"
  by (simp add: tristate_def)

lemma bi_cases: "bistate v \<in> {JStr ''true'', JStr ''false'', JStr ''''}"
  by (simp add: bistate_def)

lemma flag_cases: "flag v \<in> {JStr ''true'', JStr ''''}"
  by (simp add: flag_def)

lemma two_state_lookup:
  assumes "k \<in> set [''disabled'', ''focused'', ''selected'', ''readonly'', ''required'',
                     ''invalid'', ''modal'', ''multiline'', ''multiselectable'']"
  shows "map_of (entry_of n) k = Some (flag (get_prop n k))"
proof -
  from assms have
    "k = ''disabled'' \<or> k = ''focused'' \<or> k = ''selected'' \<or> k = ''readonly''
     \<or> k = ''required'' \<or> k = ''invalid'' \<or> k = ''modal'' \<or> k = ''multiline''
     \<or> k = ''multiselectable''"
    by simp
  then show ?thesis
    by (elim disjE) (simp_all only: entry_lookup)
qed

lemma sample_nodes:
  "nodes_of sample_tree = [sample_tree, collapsed_menu, inner_area, home_link]"
proof -
  have leaf1: "nodes_of collapsed_menu = [collapsed_menu]"
    by (subst nodes_of.simps) (simp add: collapsed_menu_def children_of_def)
  have leaf2: "nodes_of home_link = [home_link]"
    by (subst nodes_of.simps) (simp add: home_link_def children_of_def)
  have kids: "children_of inner_area = [home_link]" "truthy inner_area"
    by (simp_all add: inner_area_def children_of_def)
  have inner: "nodes_of inner_area = [inner_area, home_link]"
    by (subst nodes_of.simps) (simp add: kids leaf2)
  have top: "children_of sample_tree = [collapsed_menu, inner_area]" "truthy sample_tree"
    by (simp_all add: sample_tree_def children_of_def)
  show ?thesis
    by (subst nodes_of.simps) (simp add: top leaf1 inner)
qed

lemma sample_emitted:
  "\<not> emitted sample_tree" "emitted collapsed_menu" "\<not> emitted inner_area" "emitted home_link"
  by (simp_all add: emitted_def sample_tree_def collapsed_menu_def inner_area_def home_link_def)

lemma sample_flat:
  "flattenAccessibilityTree sample_tree [] = [entry_of collapsed_menu, entry_of home_link]"
  by (simp add: flatten_nodes_of sample_nodes sample_emitted)

subsection \<open>Serialisation of state attributes\<close>

text \<open>
  Claim C1, as the code has it.  In every entry the flattening emits, \<^verbatim>\<open>checked\<close> and
  \<^verbatim>\<open>pressed\<close> are one of the strings \<^verbatim>\<open>"true"\<close>, \<^verbatim>\<open>"false"\<close>, \<^verbatim>\<open>"mixed"\<close> and
  \<^verbatim>\<open>""\<close>; \<^verbatim>\<open>expanded\<close> is one of \<^verbatim>\<open>"true"\<close>, \<^verbatim>\<open>"false"\<close> and \<^verbatim>\<open>""\<close>, namely
  \<^verbatim>\<open>"false"\<close> for a node whose \<^verbatim>\<open>expanded\<close> is the boolean false, \<^verbatim>\<open>"true"\<close> for
  the boolean true and \<^verbatim>\<open>""\<close> for anything else; each of
  \<^verbatim>\<open>disabled\<close>, \<^verbatim>\<open>focused\<close>, \<^verbatim>\<open>selected\<close>, \<^verbatim>\<open>readonly\<close>, \<^verbatim>\<open>required\<close>,
  \<^verbatim>\<open>invalid\<close>, \<^verbatim>\<open>modal\<close>, \<^verbatim>\<open>multiline\<close> and \<^verbatim>\<open>multiselectable\<close> is
  \<^verbatim>\<open>"true"\<close> or \<^verbatim>\<open>""\<close>.
\<close>
theorem state_attributes_serialised:
  assumes "e \<in> set (flattenAccessibilityTree tree [])"
  shows "map_of e ''checked''
           \<in> {Some (JStr ''true''), Some (JStr ''false''), Some (JStr ''mixed''), Some (JStr '''')}
       \<and> map_of e ''pressed''
           \<in> {Some (JStr ''true''), Some (JStr ''false''), Some (JStr ''mixed''), Some (JStr '''')}
       \<and> map_of e ''expanded'' \<in> {Some (JStr ''true''), Some (JStr ''false''), Some (JStr '''')}
       \<and> (\<forall>k \<in> set [''disabled'', ''focused'', ''selected'', ''readonly'', ''required'',
                       ''invalid'', ''modal'', ''multiline'', ''multiselectable''].
             map_of e k \<in> {Some (JStr ''true''), Some (JStr '''')})
       \<and> (\<exists>m \<in> set (nodes_of tree). e = entry_of m)
       \<and> (get_prop node ''expanded'' = JBool False \<longrightarrow>
            map_of (entry_of node) ''expanded'' = Some (JStr ''false''))
       \<and> (get_prop node ''expanded'' = JBool True \<longrightarrow>
            map_of (entry_of node) ''expanded'' = Some (JStr ''true''))
       \<and> (get_prop node ''expanded'' \<noteq> JBool False \<and> get_prop node ''expanded'' \<noteq> JBool True \<longrightarrow>
            map_of (entry_of node) ''expanded'' = Some (JStr ''''))"
proof -
  from flatten_mem [OF assms] obtain n where n: "n \<in> set (nodes_of tree)" and e: "e = entry_of n"
    by blast
  have m: "\<exists>m \<in> set (nodes_of tree). e = entry_of m"
    using n e by blast
  have xf: "get_prop node ''expanded'' = JBool False \<longrightarrow>
            map_of (entry_of node) ''expanded'' = Some (JStr ''false'')"
    by (simp add: entry_lookup bistate_def)
  have xt: "get_prop node ''expanded'' = JBool True \<longrightarrow>
            map_of (entry_of node) ''expanded'' = Some (JStr ''true'')"
    by (simp add: entry_lookup bistate_def)
  have xn: "get_prop node ''expanded'' \<noteq> JBool False \<and> get_prop node ''expanded'' \<noteq> JBool True \<longrightarrow>
            map_of (entry_of node) ''expanded'' = Some (JStr '''')"
    by (simp add: entry_lookup bistate_def)
  have c: "map_of e ''checked''
           \<in> {Some (JStr ''true''), Some (JStr ''false''), Some (JStr ''mixed''), Some (JStr '''')}"
    using tri_cases [of "get_prop n ''checked''"] unfolding e entry_lookup by blast
  have p: "map_of e ''pressed''
           \<in> {Some (JStr ''true''), Some (JStr ''false''), Some (JStr ''mixed''), Some (JStr '''')}"
    using tri_cases [of "get_prop n ''pressed''"] unfolding e entry_lookup by blast
  have x: "map_of e ''expanded'' \<in> {Some (JStr ''true''), Some (JStr ''false''), Some (JStr '''')}"
    using bi_cases [of "get_prop n ''expanded''"] unfolding e entry_lookup by blast
  have f: "map_of e k \<in> {Some (JStr ''true''), Some (JStr '''')}"
    if "k \<in> set [''disabled'', ''focused'', ''selected'', ''readonly'', ''required'',
                  ''invalid'', ''modal'', ''multiline'', ''multiselectable'']" for k
    using flag_cases [of "get_prop n k"] unfolding e two_state_lookup [OF that] by blast
  from c p x f m xf xt xn show ?thesis by blast
qed

text \<open>The theorem at the entry of a collapsed menu button inside the sample tree.\<close>

theorem state_attributes_serialised_witness:
  "entry_of collapsed_menu \<in> set (flattenAccessibilityTree sample_tree [])
   \<and> get_prop collapsed_menu ''expanded'' = JBool False
   \<and> map_of (entry_of collapsed_menu) ''expanded'' = Some (JStr ''false'')
   \<and> map_of (entry_of collapsed_menu) ''checked'' = Some (JStr '''')
   \<and> map_of (entry_of collapsed_menu) ''disabled'' \<in> {Some (JStr ''true''), Some (JStr '''')}"
proof -
  have m: "entry_of collapsed_menu \<in> set (flattenAccessibilityTree sample_tree [])"
    by (simp add: sample_flat)
  have v: "map_of (entry_of collapsed_menu) ''expanded'' = Some (JStr ''false'')"
          "map_of (entry_of collapsed_menu) ''checked'' = Some (JStr '''')"
    by (simp_all add: entry_lookup collapsed_menu_def bistate_def tristate_def)
  have x: "get_prop collapsed_menu ''expanded'' = JBool False"
    by (simp add: collapsed_menu_def)
  from state_attributes_serialised [OF m, of collapsed_menu] m v x show ?thesis
    by simp
qed

text \<open>
  Claim C1 as it is written counts \<^verbatim>\<open>expanded\<close> among the attributes that never
  serialise as \<^verbatim>\<open>"false"\<close>.  A node with \<^verbatim>\<open>expanded: false\<close> is emitted with the
  string \<^verbatim>\<open>"false"\<close>.
\<close>

theorem expanded_false_counterexample:
  "flattenAccessibilityTree collapsed_menu [] = [entry_of collapsed_menu]
   \<and> map_of (entry_of collapsed_menu) ''expanded'' = Some (JStr ''false'')"
proof -
  have "nodes_of collapsed_menu = [collapsed_menu]"
    by (subst nodes_of.simps) (simp add: collapsed_menu_def children_of_def)
  then have "flattenAccessibilityTree collapsed_menu [] = [entry_of collapsed_menu]"
    by (simp add: flatten_nodes_of sample_emitted)
  moreover have "map_of (entry_of collapsed_menu) ''expanded'' = Some (JStr ''false'')"
    by (simp add: entry_lookup collapsed_menu_def bistate_def)
  ultimately show ?thesis by simp
qed

subsection \<open>The unnamed document root\<close>



subsection \<open>Uniform schema\<close>

text \<open>
  Claim C4.  Every entry the flattening emits has the same 25 keys, in the same order
  and without repetition; it is the entry of a visited node, and an attribute that is
  missing on that node is recorded as the empty string.
\<close>
theorem uniform_entry_keys:
  assumes "e \<in> set (flattenAccessibilityTree tree [])"
  shows "map fst e = entry_keys \<and> length e = 25 \<and> distinct (map fst e)
       \<and> (\<exists>n \<in> set (nodes_of tree). e = entry_of n
            \<and> (\<forall>k \<in> set entry_keys. get_prop n k = JUndefined \<longrightarrow> map_of e k = Some (JStr '''')))"
proof -
  from flatten_mem [OF assms] obtain n where n: "n \<in> set (nodes_of tree)" "e = entry_of n"
    by blast
  have "\<forall>k \<in> set entry_keys. get_prop n k = JUndefined \<longrightarrow> map_of e k = Some (JStr '''')"
    using missing_attribute n(2) by blast
  moreover have "length entry_keys = 25" "distinct entry_keys"
    by (simp_all add: entry_keys_def)
  then have "length e = 25" "distinct (map fst e)"
    using keys_entry_of [of n] n(2) by (metis length_map, metis)
  ultimately show ?thesis
    using n keys_entry_of by blast
qed

text \<open>The theorem at the entry of the link in the sample tree.\<close>

theorem uniform_entry_keys_witness:
  "entry_of home_link \<in> set (flattenAccessibilityTree sample_tree [])
   \<and> map fst (entry_of home_link) = entry_keys
   \<and> length entry_keys = 25 \<and> distinct entry_keys
   \<and> get_prop home_link ''valuetext'' = JUndefined
   \<and> map_of (entry_of home_link) ''valuetext'' = Some (JStr '''')"
proof -
  have m: "entry_of home_link \<in> set (flattenAccessibilityTree sample_tree [])"
    by (simp add: sample_flat)
  have k: "length entry_keys = 25" "distinct entry_keys"
    by (simp_all add: entry_keys_def)
  have v: "get_prop home_link ''valuetext'' = JUndefined"
          "map_of (entry_of home_link) ''valuetext'' = Some (JStr '''')"
    by (simp_all add: home_link_def entry_lookup js_or_def)
  from uniform_entry_keys [OF m] m k v show ?thesis by simp
qed

section \<open>Properties of filtering and pagination\<close>

lemma filter_throwing_total:
  assumes "\<forall>x \<in> set xs. \<exists>b. p x = Inr b"
  shows "filter_throwing p xs = Inr (filter (\<lambda>x. p x = Inr True) xs)"
  using assms by (induction xs) auto

lemma js_or_string: "string_or_absent v \<Longrightarrow> \<exists>s. js_or v (JStr '''') = JStr s"
  by (cases v) (simp_all add: string_or_absent_def js_or_def)

lemma entry_name_role:
  "get_prop (JObj (entry_of n)) ''name'' = js_or (get_prop n ''name'') (JStr '''')"
  "get_prop (JObj (entry_of n)) ''role'' = js_or (get_prop n ''role'') (JStr '''')"
  by (simp_all add: entry_lookup)

lemma has_name_total:
  assumes "string_or_absent (get_prop n ''name'')"
  shows "\<exists>b. has_name sm (entry_of n) = Inr b"
proof -
  from js_or_string [OF assms] obtain s where "js_or (get_prop n ''name'') (JStr '''') = JStr s" ..
  then show ?thesis
    unfolding has_name_def entry_name_role by auto
qed

lemma has_role_total:
  assumes "string_or_absent (get_prop n ''role'')"
  shows "\<exists>b. has_role sm rs (entry_of n) = Inr b"
proof -
  from js_or_string [OF assms] obtain s where "js_or (get_prop n ''role'') (JStr '''') = JStr s" ..
  then show ?thesis
    unfolding has_role_def entry_name_role by auto
qed

lemma well_typed_entries:
  assumes "well_typed tree" and "e \<in> set (flattenAccessibilityTree tree [])"
  shows "(\<exists>b. has_name sm e = Inr b) \<and> (\<exists>b. has_role sm rs e = Inr b)"
proof -
  from flatten_mem [OF assms(2)] obtain n where n: "n \<in> set (nodes_of tree)" "e = entry_of n"
    by blast
  with assms(1) have "string_or_absent (get_prop n ''name'')" "string_or_absent (get_prop n ''role'')"
    by (auto simp: well_typed_def list_all_iff)
  with n(2) has_name_total has_role_total show ?thesis by blast
qed

lemma filter_nodes_total:
  assumes "well_typed tree"
  shows "\<exists>fs. filter_nodes sm named rs (flattenAccessibilityTree tree []) = Inr fs"
proof -
  let ?es = "flattenAccessibilityTree tree []"
  have 1: "filter_throwing (has_name sm) ?es = Inr (filter (\<lambda>x. has_name sm x = Inr True) ?es)"
    by (rule filter_throwing_total) (use well_typed_entries [OF assms] in blast)
  have 2: "filter_throwing (has_role sm r) xs = Inr (filter (\<lambda>x. has_role sm r x = Inr True) xs)"
    if "set xs \<subseteq> set ?es" for r xs
    by (rule filter_throwing_total) (use well_typed_entries [OF assms] that in blast)
  show ?thesis
    by (cases rs) (simp_all add: filter_nodes_def 1 2)
qed

lemma integer_number:
  assumes "0 \<le> k"
  shows "positive (Num (of_int k)) = (0 < k)"
    and "slice_from xs (Num (of_int k)) = drop (nat k) xs"
    and "slice_upto xs (Num (of_int k)) = take (nat k) xs"
    and "plus_less (Num (of_int k)) n t = (k + int n < int t)"
proof -
  show "positive (Num (of_int k)) = (0 < k)" by simp
  have i: "slice_index len (Num (of_int k)) = min (nat k) len" for len
    using assms by simp
  have "drop (min (nat k) (length xs)) xs = drop (nat k) xs"
    by (simp add: min_def)
  then show "slice_from xs (Num (of_int k)) = drop (nat k) xs"
    by (simp only: slice_from_def i)
  have "take (min (nat k) (length xs)) xs = take (nat k) xs"
    by (simp add: min_def)
  then show "slice_upto xs (Num (of_int k)) = take (nat k) xs"
    by (simp only: slice_upto_def i)
  have "(real_of_int k + real n < real t) = (real_of_int (k + int n) < real_of_int (int t))"
    by simp
  also have "\<dots> = (k + int n < int t)"
    by (rule of_int_less_iff)
  finally show "plus_less (Num (of_int k)) n t = (k + int n < int t)" by simp
qed

lemma paginate_integers:
  assumes "0 \<le> l" and "0 \<le> k"
  shows "total (paginate fs (Num (of_int l)) (Num (of_int k))) = length fs"
    and "nodes (paginate fs (Num (of_int l)) (Num (of_int k)))
         = (if l = 0 then drop (nat k) fs else take (nat l) (drop (nat k) fs))"
    and "showing (paginate fs (Num (of_int l)) (Num (of_int k)))
         = length (nodes (paginate fs (Num (of_int l)) (Num (of_int k))))"
    and "hasMore (paginate fs (Num (of_int l)) (Num (of_int k)))
         = (k + int (showing (paginate fs (Num (of_int l)) (Num (of_int k))))
              < int (total (paginate fs (Num (of_int l)) (Num (of_int k)))))"
  using assms
  by (auto simp only: paginate_def Let_def integer_number page.simps split: if_splits)
     auto


lemma named_button_flat:
  "flattenAccessibilityTree (named_button s) acc = acc @ [entry_of (named_button s)]"
  using flatten_step [of "named_button s" acc]
  by (simp add: named_button_def children_of_def emitted_def)

lemma named_button_nodes: "nodes_of (named_button s) = [named_button s]"
  by (subst nodes_of.simps) (simp add: named_button_def children_of_def)

lemma five_buttons_nodes:
  "nodes_of five_buttons =
     [five_buttons, named_button ''A'', named_button ''B'', named_button ''C'',
      named_button ''D'', named_button ''E'']"
proof -
  have "children_of five_buttons =
          [named_button ''A'', named_button ''B'', named_button ''C'',
           named_button ''D'', named_button ''E'']" "truthy five_buttons"
    by (simp_all add: five_buttons_def children_of_def)
  then show ?thesis
    by (subst nodes_of.simps) (simp add: named_button_nodes)
qed

lemma five_buttons_flat:
  "flattenAccessibilityTree five_buttons [] =
     [entry_of (named_button ''A''), entry_of (named_button ''B''), entry_of (named_button ''C''),
      entry_of (named_button ''D''), entry_of (named_button ''E'')]"
proof -
  have "\<not> emitted five_buttons" "\<And>s. emitted (named_button s)"
    by (simp_all add: emitted_def five_buttons_def named_button_def)
  then show ?thesis
    by (simp add: flatten_nodes_of five_buttons_nodes)
qed

lemma named_button_has_name:
  "has_name sm (entry_of (named_button s)) = Inr (s \<noteq> [] \<and> trim sm s \<noteq> [])"
  unfolding has_name_def entry_name_role
  by (simp add: named_button_def js_or_def)

lemma five_buttons_well_typed: "well_typed five_buttons"
  by (simp add: well_typed_def five_buttons_nodes)
     (simp add: five_buttons_def named_button_def string_or_absent_def)

lemma five_buttons_filtered:
  "filter_nodes ascii_strings True None (flattenAccessibilityTree five_buttons []) =
     Inr [entry_of (named_button ''A''), entry_of (named_button ''B''), entry_of (named_button ''C''),
          entry_of (named_button ''D''), entry_of (named_button ''E'')]"
  by (simp add: filter_nodes_def five_buttons_flat named_button_has_name ascii_strings_def
        is_space_def)

subsection \<open>Pagination\<close>

text \<open>
  Claim C3, as the code has it.  On a well-typed tree and with whole numbers
  \<^verbatim>\<open>limit\<close> \<open>l \<ge> 0\<close> and \<^verbatim>\<open>offset\<close> \<open>k \<ge> 0\<close>, the filters yield a list \<open>fs\<close> and the
  tool builds a result with \<^verbatim>\<open>total\<close> the length of \<open>fs\<close>, \<^verbatim>\<open>showing\<close> equal to
  \<open>min (max (total - k) 0) l\<close> (to \<open>max (total - k) 0\<close> when \<open>l = 0\<close>), \<^verbatim>\<open>nodes\<close> the
  entries of \<open>fs\<close> at the positions \<open>k, \<dots>, k + showing - 1\<close> in order, and \<^verbatim>\<open>hasMore\<close>
  equal to \<open>k + showing < total\<close>.
\<close>

theorem pagination_correct:
  assumes "well_typed tree" and "0 \<le> l" and "0 \<le> k"
  shows "\<exists>fs p.
           filter_nodes sm (case nm of None \<Rightarrow> True | Some b \<Rightarrow> b) rs
             (flattenAccessibilityTree tree []) = Inr fs
         \<and> snapshot_page sm
             \<lparr>limit = Some (Num (of_int l)), offset = Some (Num (of_int k)), roles = rs,
              namedOnly = nm\<rparr> tree = Inr p
         \<and> total p = length fs
         \<and> int (showing p) = (if l = 0 then max (int (total p) - k) 0
                               else min (max (int (total p) - k) 0) l)
         \<and> length (nodes p) = showing p
         \<and> (\<forall>i < showing p. nodes p ! i = fs ! (nat k + i))
         \<and> hasMore p = (k + int (showing p) < int (total p))"
proof -
  let ?named = "case nm of None \<Rightarrow> True | Some b \<Rightarrow> b"
  from filter_nodes_total [OF assms(1)] obtain fs where
    fs: "filter_nodes sm ?named rs (flattenAccessibilityTree tree []) = Inr fs" by blast
  let ?p = "paginate fs (Num (of_int l)) (Num (of_int k))"
  have page: "snapshot_page sm
                \<lparr>limit = Some (Num (of_int l)), offset = Some (Num (of_int k)), roles = rs,
                 namedOnly = nm\<rparr> tree = Inr ?p"
    by (simp add: snapshot_page_def fs)
  note pf = paginate_integers [OF assms(2,3), of fs]
  have n: "nodes ?p = (if l = 0 then drop (nat k) fs else take (nat l) (drop (nat k) fs))"
    by (rule pf(2))
  have len: "length (nodes ?p) = showing ?p"
    by (simp add: pf(3))
  have sh: "int (showing ?p) = (if l = 0 then max (int (total ?p) - k) 0
                                else min (max (int (total ?p) - k) 0) l)"
    using assms(2,3) unfolding pf(3) pf(1) n by auto
  have idx: "\<forall>i < showing ?p. nodes ?p ! i = fs ! (nat k + i)"
    unfolding pf(3) n by auto
  from fs page pf(1) sh len idx pf(4) show ?thesis by blast
qed

text \<open>The second scenario of the specification: five named entries, limit 2, offset 1.\<close>

theorem pagination_correct_witness:
  "well_typed five_buttons \<and> (0::int) \<le> 2 \<and> (0::int) \<le> 1
   \<and> snapshot_page ascii_strings
       \<lparr>limit = Some (Num 2), offset = Some (Num 1), roles = None, namedOnly = None\<rparr> five_buttons
     = Inr \<lparr>total = 5, showing = 2, hasMore = True,
            nodes = [entry_of (named_button ''B''), entry_of (named_button ''C'')]\<rparr>"
proof -
  have h: "(0::int) \<le> 2" "(0::int) \<le> 1" by simp_all
  have "snapshot_page ascii_strings
          \<lparr>limit = Some (Num 2), offset = Some (Num 1), roles = None, namedOnly = None\<rparr> five_buttons
        = Inr \<lparr>total = 5, showing = 2, hasMore = True,
               nodes = [entry_of (named_button ''B''), entry_of (named_button ''C'')]\<rparr>"
    by (simp add: snapshot_page_def five_buttons_filtered paginate_def slice_from_def slice_upto_def)
  with pagination_correct [OF five_buttons_well_typed h, of ascii_strings None None]
       five_buttons_well_typed
  show ?thesis by simp
qed

text \<open>
  Claim C3 as it is written speaks of every limit \<open>L \<ge> 0\<close>.  The limit is a number, and
  with \<open>L = 0.5\<close> and offset 0 on five named entries \<^verbatim>\<open>slice(0, 0.5)\<close> keeps nothing:
  \<^verbatim>\<open>showing\<close> is 0, where \<open>min (max (total - O) 0) L\<close> is 0.5.
\<close>

theorem fractional_limit_counterexample:
  "snapshot_page ascii_strings
     \<lparr>limit = Some (Num (1 / 2)), offset = Some (Num 0), roles = None, namedOnly = None\<rparr>
     five_buttons
   = Inr \<lparr>total = 5, showing = 0, hasMore = True, nodes = []\<rparr>
   \<and> real 0 \<noteq> min (max (real 5 - 0) 0) (1 / 2)"
  by (simp add: snapshot_page_def five_buttons_filtered paginate_def slice_upto_def)

text \<open>
  Claim C10.  A negative \<^verbatim>\<open>limit\<close> (a negative number, whole or not, or
  \<^verbatim>\<open>-Infinity\<close>) paginates exactly as \<^verbatim>\<open>limit = 0\<close>: the cut \<^verbatim>\<open>slice(0, limit)\<close> is
  not applied, and every filtered entry after the offset is returned.
\<close>

theorem negative_limit_unlimited:
  assumes "negative l"
  shows "paginate fs l off = paginate fs (Num 0) off
       \<and> nodes (paginate fs l off) = (if positive off then slice_from fs off else fs)
       \<and> (\<forall>k. off = Num (of_int k) \<longrightarrow>
             nodes (paginate fs l off) = (if k > 0 then drop (nat k) fs else fs))
       \<and> snapshot_page sm (args\<lparr>limit := Some l\<rparr>) tree
         = snapshot_page sm (args\<lparr>limit := Some (Num 0)\<rparr>) tree"
proof -
  from assms have np: "\<not> positive l"
    by (cases l) simp_all
  have eq: "paginate ns l q = paginate ns (Num 0) q" for ns q
    using np by (simp add: paginate_def Let_def)
  have all: "nodes (paginate fs l q) = (if positive q then slice_from fs q else fs)" for q
    using np by (simp add: paginate_def Let_def)
  have whole: "nodes (paginate fs l off) = (if k > 0 then drop (nat k) fs else fs)"
    if "off = Num (of_int k)" for k
  proof (cases "0 \<le> k")
    case True
    show ?thesis
      by (simp only: that all integer_number [OF True])
  next
    case False
    then show ?thesis
      by (simp add: that all)
  qed
  have "snapshot_page sm (args\<lparr>limit := Some l\<rparr>) tree
        = snapshot_page sm (args\<lparr>limit := Some (Num 0)\<rparr>) tree"
    by (simp add: snapshot_page_def eq split: sum.splits)
  with eq all whole show ?thesis
    by blast
qed

text \<open>Limit \<open>-3\<close> and offset 1 on the five buttons: the last four entries.\<close>

theorem negative_limit_unlimited_witness:
  "negative (Num (- 3))
   \<and> snapshot_page ascii_strings
       \<lparr>limit = Some (Num (- 3)), offset = Some (Num 1), roles = None, namedOnly = None\<rparr>
       five_buttons
     = Inr \<lparr>total = 5, showing = 4, hasMore = False,
            nodes = [entry_of (named_button ''B''), entry_of (named_button ''C''),
                     entry_of (named_button ''D''), entry_of (named_button ''E'')]\<rparr>"
proof -
  have h: "negative (Num (- 3))" by simp
  have "snapshot_page ascii_strings
          \<lparr>limit = Some (Num 0), offset = Some (Num 1), roles = None, namedOnly = None\<rparr>
          five_buttons
        = Inr \<lparr>total = 5, showing = 4, hasMore = False,
               nodes = [entry_of (named_button ''B''), entry_of (named_button ''C''),
                        entry_of (named_button ''D''), entry_of (named_button ''E'')]\<rparr>"
    by (simp add: snapshot_page_def five_buttons_filtered paginate_def slice_from_def)
  with negative_limit_unlimited [OF h, of "[]" "Num 0" ascii_strings
         "\<lparr>limit = None, offset = Some (Num 1), roles = None, namedOnly = None\<rparr>" five_buttons] h
  show ?thesis by simp
qed

section \<open>Properties of the tools\<close>

lemma bnd_simps:
  "bnd (lift (Inl e)) f tr = (Inl e, tr)"
  "bnd (lift (Inr v)) f tr = f v tr"
  "bnd (ret v) f tr = f v tr"
  "bnd (throw e) f tr = (Inl e, tr)"
  "bnd (invoke c a) f tr = (case a tr of Inl e \<Rightarrow> (Inl e, tr @ [c]) | Inr w \<Rightarrow> f w (tr @ [c]))"
  by (simp_all add: bnd_def lift_def ret_def throw_def invoke_def split: sum.splits)

subsection \<open>Swipe\<close>

text \<open>
  Claim C5.  The table has exactly the four directions as keys, so that the read
  \<^verbatim>\<open>contentToFingerDirection[direction]\<close> is defined for every direction; it maps up
  to down, down to up, left to right and right to left, and reading it twice gives the
  direction back.
\<close>
theorem direction_inversion:
  "map fst contentToFingerDirection = [Up, Down, Left, Right]
   \<and> (\<forall>d. \<exists>f. fingerDirection d = Some f)
   \<and> fingerDirection Up = Some Down \<and> fingerDirection Down = Some Up
   \<and> fingerDirection Left = Some Right \<and> fingerDirection Right = Some Left
   \<and> (\<forall>d. Option.bind (fingerDirection d) fingerDirection = Some d)"
proof -
  have tot: "\<exists>f. fingerDirection d = Some f" for d
    by (cases d) (simp_all add: fingerDirection_def contentToFingerDirection_def)
  have inv: "Option.bind (fingerDirection d) fingerDirection = Some d" for d
    by (cases d) (simp_all add: fingerDirection_def contentToFingerDirection_def)
  have "map fst contentToFingerDirection = [Up, Down, Left, Right]"
       "fingerDirection Up = Some Down" "fingerDirection Down = Some Up"
       "fingerDirection Left = Some Right" "fingerDirection Right = Some Left"
    by (simp_all add: fingerDirection_def contentToFingerDirection_def)
  with tot inv show ?thesis by blast
qed

text \<open>
  Claim C6.  With a driver at hand, \<^verbatim>\<open>swipeTool\<close> issues exactly one call,
  \<^verbatim>\<open>browser.swipe\<close>, with the inverted direction, the duration given or else 500, and
  the percent given or else 0.5 for up and down and 0.95 for left and right.
\<close>
theorem swipe_defaults:
  assumes "getBrowser ev = Inr browser"
  shows "snd (swipeTool ev d duration percent)
         = [Swipe (fingerDirection d)
              (case duration of None \<Rightarrow> 500 | Some t \<Rightarrow> t)
              (case percent of
                 None \<Rightarrow> if d = Up \<or> d = Down then 0.5 else 0.95
               | Some p \<Rightarrow> p)]"
proof -
  have "snd (swipeTool ev d duration percent)
        = [Swipe (fingerDirection d) (effectiveDuration duration) (effectivePercent d percent)]"
    using assms
    by (simp add: swipeTool_def swipe_body_def try_catch_def bnd_simps ret_def Let_def
          split: sum.splits)
  then show ?thesis
    by (simp add: effectivePercent_def effectiveDuration_def split: option.splits)
qed

text \<open>The first scenario of the specification, and a swipe with an explicit percent.\<close>

theorem swipe_defaults_witness:
  "getBrowser (stub_env None) = Inr stub_driver
   \<and> snd (swipeTool (stub_env None) Left None None) = [Swipe (Some Right) 500 0.95]
   \<and> snd (swipeTool (stub_env None) Up None (Some 0.3)) = [Swipe (Some Down) 500 0.3]"
proof -
  have h: "getBrowser (stub_env None) = Inr stub_driver"
    by (simp add: stub_env_def)
  from swipe_defaults [OF h, of Left None None] swipe_defaults [OF h, of Up None "Some 0.3"] h
  show ?thesis
    by (simp add: fingerDirection_def contentToFingerDirection_def)
qed


lemma bnd_ret: "bnd (ret v) f = f v"
  by (rule ext) (simp add: bnd_simps)

lemma lookupArg_mobile:
  "startsWith script ''mobile:'' \<Longrightarrow> lookupArg browser script arg = ret None"
  by (cases arg) (simp_all add: lookupArg_def)

lemma lookupArgs_mobile:
  "startsWith script ''mobile:'' \<Longrightarrow>
   lookupArgs browser script raw = ret (map (\<lambda>arg. None) raw)"
  by (induction raw) (simp_all add: lookupArg_mobile bnd_ret)

lemma settleArgs_none:
  "settleArgs browser (zip raw (map (\<lambda>arg. None) raw)) = ret (map Value raw)"
  by (induction raw) (simp_all add: settleArg_def bnd_ret)

lemma resolveArgs_mobile:
  "startsWith script ''mobile:'' \<Longrightarrow> resolveArgs browser script raw = ret (map Value raw)"
  by (simp add: resolveArgs_def lookupArgs_mobile bnd_ret settleArgs_none)

subsection \<open>Script execution\<close>

text \<open>
  Claim C7.  For a script that starts with \<^verbatim>\<open>mobile:\<close> the resolved arguments are the
  raw arguments, one by one and in order, whatever they are, and no call is issued to
  resolve them: the only call of the tool is \<^verbatim>\<open>browser.execute\<close> with the script and
  these arguments.
\<close>
theorem mobile_command_passthrough:
  assumes "startsWith script ''mobile:''"
  shows "resolveArgs browser script raw tr = (Inr (map Value raw), tr)
       \<and> (getBrowser ev = Inr browser \<longrightarrow>
            snd (executeScriptTool ev script (Some raw)) = [Execute script (map Value raw)])"
proof
  show "resolveArgs browser script raw tr = (Inr (map Value raw), tr)"
    by (simp add: resolveArgs_mobile [OF assms] ret_def)
  show "getBrowser ev = Inr browser \<longrightarrow>
          snd (executeScriptTool ev script (Some raw)) = [Execute script (map Value raw)]"
    by (simp add: executeScriptTool_def executeScript_body_def try_catch_def
          resolveArgs_mobile [OF assms] bnd_simps bnd_ret ret_def split: sum.splits)
qed

text \<open>The fourth scenario of the specification, with a selector-like string added.\<close>

theorem mobile_command_passthrough_witness:
  "startsWith ''mobile: pressKey'' ''mobile:''
   \<and> getBrowser (stub_env None) = Inr stub_driver
   \<and> executeScriptTool (stub_env None) ''mobile: pressKey''
        (Some [JObj [(''keycode'', JNum 4)], JStr ''#submit''])
     = ([Text ''Script executed successfully (no return value)''],
        [Execute ''mobile: pressKey'' [Value (JObj [(''keycode'', JNum 4)]), Value (JStr ''#submit'')]])"
proof -
  have h: "startsWith ''mobile: pressKey'' ''mobile:''"
    by (simp add: startsWith_def)
  have b: "getBrowser (stub_env None) = Inr stub_driver"
    by (simp add: stub_env_def)
  have t: "fst (executeScriptTool (stub_env None) ''mobile: pressKey''
                  (Some [JObj [(''keycode'', JNum 4)], JStr ''#submit'']))
           = [Text ''Script executed successfully (no return value)'']"
    by (simp add: executeScriptTool_def executeScript_body_def try_catch_def
          resolveArgs_mobile [OF h] bnd_simps bnd_ret ret_def resultText_def b)
       (simp add: stub_driver_def ret_def)
  from mobile_command_passthrough [OF h, of stub_driver
         "[JObj [(''keycode'', JNum 4)], JStr ''#submit'']" "[]" "stub_env None"] h b t
  show ?thesis
    by (simp add: prod_eq_iff)
qed

subsection \<open>Scroll\<close>

text \<open>
  Claim C8.  In a session of type \<^verbatim>\<open>browser\<close>, \<^verbatim>\<open>scrollTool\<close> issues one scroll by
  \<open>+pixels\<close> for down and \<open>-pixels\<close> for up (500 pixels by default).  In any
  other session no call is issued and the result is an error text, which says that scroll
  only works in browser sessions.
\<close>
theorem scroll_browser_only:
  "(getBrowser ev = Inr browser \<and> sessionType ev = Some ''browser'' \<longrightarrow>
      snd (scrollTool ev d pixels)
      = [ScrollBy (if d = ScrollDown then (case pixels of None \<Rightarrow> 500 | Some p \<Rightarrow> p)
                   else - (case pixels of None \<Rightarrow> 500 | Some p \<Rightarrow> p))])
   \<and> (sessionType ev \<noteq> Some ''browser'' \<longrightarrow>
        snd (scrollTool ev d pixels) = []
        \<and> (\<exists>msg. fst (scrollTool ev d pixels) = [Text (''Error scrolling: '' @ msg)]))
   \<and> (getBrowser ev = Inr browser \<and> sessionType ev \<noteq> Some ''browser'' \<longrightarrow>
        fst (scrollTool ev d pixels)
        = [Text ''Error scrolling: Error: scroll only works in browser sessions. For mobile, use the swipe tool.''])"
proof (cases "getBrowser ev")
  case (Inl e)
  then show ?thesis
    by (simp add: scrollTool_def scroll_body_def try_catch_def bnd_simps)
next
  case (Inr b)
  then show ?thesis
    by (simp add: scrollTool_def scroll_body_def try_catch_def bnd_simps ret_def throw_def Let_def
          split: sum.splits)
qed

text \<open>The fifth scenario of the specification, and two scrolls in a browser session.\<close>

theorem scroll_browser_only_witness:
  "getBrowser (stub_env (Some ''browser'')) = Inr stub_driver
   \<and> getBrowser (stub_env (Some ''mobile-android'')) = Inr stub_driver
   \<and> snd (scrollTool (stub_env (Some ''browser'')) ScrollUp (Some 200)) = [ScrollBy (- 200)]
   \<and> snd (scrollTool (stub_env (Some ''browser'')) ScrollDown None) = [ScrollBy 500]
   \<and> scrollTool (stub_env (Some ''mobile-android'')) ScrollUp (Some 200)
     = ([Text ''Error scrolling: Error: scroll only works in browser sessions. For mobile, use the swipe tool.''],
        [])"
proof -
  have b: "getBrowser (stub_env k) = Inr stub_driver" for k
    by (simp add: stub_env_def)
  have s: "sessionType (stub_env k) = k" for k
    by (simp add: stub_env_def)
  from scroll_browser_only [of "stub_env (Some ''browser'')" stub_driver ScrollUp "Some 200"]
       scroll_browser_only [of "stub_env (Some ''browser'')" stub_driver ScrollDown None]
       scroll_browser_only [of "stub_env (Some ''mobile-android'')" stub_driver ScrollUp "Some 200"] b
  show ?thesis
    by (simp add: s prod_eq_iff)
qed

subsection \<open>The accessibility tool\<close>

text \<open>
  The text of \<^verbatim>\<open>get_accessibility\<close> in a browser session with a page and a snapshot
  is the encoding of the result object that \<^verbatim>\<open>snapshot_page\<close> builds.
\<close>

lemma getAccessibilityTreeTool_page:
  assumes "getBrowser ev = Inr browser" and "\<not> isAndroid browser" and "\<not> isIOS browser"
    and "getPuppeteer browser [] = Inr ()"
    and "pages browser [GetPuppeteer] = Inr n" and "n > 0"
    and "snapshot browser [GetPuppeteer, Pages] = Inr tree" and "truthy tree"
    and "snapshot_page (strings ev) args tree = Inr p"
  shows "getAccessibilityTreeTool ev args
         = ([Text (strip_empty_strings (encode ev p))], [GetPuppeteer, Pages, Snapshot])"
  using assms
  by (simp add: getAccessibilityTreeTool_def getAccessibilityTree_body_def try_catch_def
        bnd_simps ret_def)

subsection \<open>Single text blocks\<close>

lemma single_ret: "single_text (ret [Text t])"
  by (simp add: single_text_def ret_def)

lemma single_throw: "single_text (throw e)"
  by (simp add: single_text_def throw_def)

lemma single_bnd: "(\<And>v. single_text (f v)) \<Longrightarrow> single_text (bnd m f)"
  unfolding single_text_def bnd_def
  by (auto split: prod.splits sum.splits)

lemma tapElement_single: "single_text (tapElement_body ev selector x y)"
  unfolding tapElement_body_def Let_def
  by (intro single_bnd) (auto intro!: single_bnd single_ret split: option.splits)

lemma swipe_single: "single_text (swipe_body ev d duration percent)"
  unfolding swipe_body_def Let_def
  by (intro single_bnd single_ret)

lemma dragAndDrop_single: "single_text (dragAndDrop_body ev src tgt x y duration)"
  unfolding dragAndDrop_body_def Let_def
  by (intro single_bnd) (auto intro!: single_bnd single_ret split: option.splits)

lemma executeScript_single: "single_text (executeScript_body ev script args)"
  unfolding executeScript_body_def Let_def
  by (intro single_bnd single_ret)

lemma scroll_single: "single_text (scroll_body ev d pixels)"
  unfolding scroll_body_def Let_def
  by (intro single_bnd) (auto intro!: single_bnd single_ret single_throw)

lemma getAccessibilityTree_single: "single_text (getAccessibilityTree_body ev args)"
  unfolding getAccessibilityTree_body_def
  by (intro single_bnd) (auto intro!: single_bnd single_ret)

lemma rotateDevice_single: "single_text (rotateDevice_body ev orient)"
  unfolding rotateDevice_body_def by (intro single_bnd single_ret)

lemma hideKeyboard_single: "single_text (hideKeyboard_body ev)"
  unfolding hideKeyboard_body_def by (intro single_bnd single_ret)

lemma getGeolocation_single: "single_text (getGeolocation_body ev)"
  unfolding getGeolocation_body_def by (intro single_bnd single_ret)

lemma setGeolocation_single: "single_text (setGeolocation_body ev lat lon alt)"
  unfolding setGeolocation_body_def by (intro single_bnd single_ret)

subsection \<open>Faults of the driver\<close>

lemma faults_ret: "faults_last sw b (ret v)"
  by (simp add: faults_last_def ret_def)

lemma faults_throw: "faults_last sw b (throw e)"
  by (simp add: faults_last_def throw_def)

lemma faults_lift: "faults_last sw b (lift r)"
  by (simp add: faults_last_def lift_def)

lemma faults_invoke:
  assumes "\<And>tr. answer_fault b tr c = fault_of (answer tr)"
  shows "faults_last sw b (invoke c answer)"
proof -
  have "rest = [] \<and> answer tr0 = Inl e"
    if "[c] = pre @ d # rest" and "answer_fault b (tr0 @ pre) d = Some e" for tr0 pre d rest e
  proof -
    from that(1) have p: "pre = []" "d = c" "rest = []"
      by (auto simp: Cons_eq_append_conv)
    with that(2) assms [of tr0] have "fault_of (answer tr0) = Some e" by simp
    then have "answer tr0 = Inl e" by (cases "answer tr0") simp_all
    with p show ?thesis by simp
  qed
  then show ?thesis
    unfolding faults_last_def invoke_def by auto
qed

lemma faults_bnd:
  assumes m: "faults_last sw b m" and f: "\<And>v. faults_last sw b (f v)"
  shows "faults_last sw b (bnd m f)"
  unfolding faults_last_def
proof (intro allI impI)
  fix tr0 r tr2
  assume run: "bnd m f tr0 = (r, tr2)"
  obtain r1 tr1 where m1: "m tr0 = (r1, tr1)" by (cases "m tr0")
  from m m1 obtain a1 where a1: "tr1 = tr0 @ a1"
    and l1: "\<And>pre c rest e. a1 = pre @ c # rest \<Longrightarrow> \<not> sw c
               \<Longrightarrow> answer_fault b (tr0 @ pre) c = Some e \<Longrightarrow> rest = [] \<and> r1 = Inl e"
    unfolding faults_last_def by blast
  show "\<exists>added. tr2 = tr0 @ added \<and>
          (\<forall>pre c rest e. added = pre @ c # rest \<and> \<not> sw c
              \<and> answer_fault b (tr0 @ pre) c = Some e \<longrightarrow> rest = [] \<and> r = Inl e)"
  proof (cases r1)
    case (Inl e1)
    with run m1 have "r = Inl e1" "tr2 = tr1" by (simp_all add: bnd_def)
    with a1 l1 Inl show ?thesis by blast
  next
    case (Inr v)
    with run m1 have f1: "f v tr1 = (r, tr2)" by (simp add: bnd_def)
    from f [of v] f1 obtain a2 where a2: "tr2 = tr1 @ a2"
      and l2: "\<And>pre c rest e. a2 = pre @ c # rest \<Longrightarrow> \<not> sw c
                 \<Longrightarrow> answer_fault b (tr1 @ pre) c = Some e \<Longrightarrow> rest = [] \<and> r = Inl e"
      unfolding faults_last_def by blast
    have "rest = [] \<and> r = Inl e"
      if sp: "a1 @ a2 = pre @ c # rest" and nsw: "\<not> sw c"
        and flt: "answer_fault b (tr0 @ pre) c = Some e" for pre c rest e
    proof -
      from sp consider us where "a1 = pre @ us" "us @ a2 = c # rest"
        | us where "a1 @ us = pre" "a2 = us @ c # rest"
        by (auto simp: append_eq_append_conv2)
      then show ?thesis
      proof cases
        case 1
        show ?thesis
        proof (cases us)
          case Nil
          with 1 have "a2 = [] @ c # rest" "tr1 @ [] = tr0 @ pre"
            using a1 by simp_all
          with l2 [of "[]" c rest e] nsw flt show ?thesis by simp
        next
          case (Cons u us')
          with 1 have "a1 = pre @ c # us'" by simp
          from l1 [OF this nsw flt] Inr show ?thesis by simp
        qed
      next
        case 2
        then have "tr1 @ us = tr0 @ pre" using a1 by simp
        with l2 [OF 2(2) nsw] flt show ?thesis by simp
      qed
    qed
    with a1 a2 show ?thesis by auto
  qed
qed

lemma faults_bnd_lift:
  assumes "\<And>v. r = Inr v \<Longrightarrow> faults_last sw b (f v)"
  shows "faults_last sw b (bnd (lift r) f)"
proof (cases r)
  case (Inl e)
  then have "bnd (lift r) f = throw e"
    by (intro ext) (simp add: bnd_simps throw_def)
  then show ?thesis by (simp add: faults_throw)
next
  case (Inr v)
  then have "bnd (lift r) f = f v"
    by (intro ext) (simp add: bnd_simps)
  with assms [OF Inr] show ?thesis by simp
qed

lemmas faults_intros = faults_bnd faults_invoke faults_ret faults_throw

lemma tapElement_faults:
  "getBrowser ev = Inr b \<Longrightarrow> faults_last sw b (tapElement_body ev selector x y)"
  unfolding tapElement_body_def Let_def
  by (rule faults_bnd_lift) (auto intro!: faults_intros split: option.splits)

lemma swipe_faults:
  "getBrowser ev = Inr b \<Longrightarrow> faults_last sw b (swipe_body ev d duration percent)"
  unfolding swipe_body_def Let_def
  by (rule faults_bnd_lift) (auto intro!: faults_intros)

lemma dragAndDrop_faults:
  "getBrowser ev = Inr b \<Longrightarrow> faults_last sw b (dragAndDrop_body ev src tgt x y duration)"
  unfolding dragAndDrop_body_def Let_def
  by (rule faults_bnd_lift) (auto intro!: faults_intros split: option.splits)

lemma scroll_faults:
  "getBrowser ev = Inr b \<Longrightarrow> faults_last sw b (scroll_body ev d pixels)"
  unfolding scroll_body_def Let_def
  by (rule faults_bnd_lift) (auto intro!: faults_intros)

lemma getAccessibilityTree_faults:
  "getBrowser ev = Inr b \<Longrightarrow> faults_last sw b (getAccessibilityTree_body ev args)"
  unfolding getAccessibilityTree_body_def
  by (rule faults_bnd_lift) (auto intro!: faults_intros faults_bnd_lift)

lemma rotateDevice_faults:
  "getBrowser ev = Inr b \<Longrightarrow> faults_last sw b (rotateDevice_body ev orient)"
  unfolding rotateDevice_body_def
  by (rule faults_bnd_lift) (auto intro!: faults_intros)

lemma hideKeyboard_faults:
  "getBrowser ev = Inr b \<Longrightarrow> faults_last sw b (hideKeyboard_body ev)"
  unfolding hideKeyboard_body_def
  by (rule faults_bnd_lift) (auto intro!: faults_intros)

lemma getGeolocation_faults:
  "getBrowser ev = Inr b \<Longrightarrow> faults_last sw b (getGeolocation_body ev)"
  unfolding getGeolocation_body_def
  by (rule faults_bnd_lift) (auto intro!: faults_intros)

lemma setGeolocation_faults:
  "getBrowser ev = Inr b \<Longrightarrow> faults_last sw b (setGeolocation_body ev lat lon alt)"
  unfolding setGeolocation_body_def
  by (rule faults_bnd_lift) (auto intro!: faults_intros)

lemma lookupArg_faults: "faults_last is_lookup b (lookupArg browser script arg)"
  unfolding faults_last_def lookupArg_def
  by (cases arg) (auto simp: invoke_def ret_def Cons_eq_append_conv split: sum.splits)

lemma settleArg_faults: "faults_last is_lookup b (settleArg browser arg found)"
  unfolding faults_last_def settleArg_def
  by (cases found) (auto simp: invoke_def ret_def Cons_eq_append_conv split: sum.splits)

lemma lookupArgs_faults: "faults_last is_lookup b (lookupArgs browser script args)"
  by (induction args) (auto intro!: faults_intros lookupArg_faults)

lemma settleArgs_faults: "faults_last is_lookup b (settleArgs browser pairs)"
  by (induction pairs) (auto intro!: faults_intros settleArg_faults)

lemma resolveArgs_faults: "faults_last is_lookup b (resolveArgs browser script args)"
  unfolding resolveArgs_def
  by (intro faults_bnd lookupArgs_faults settleArgs_faults)

lemma executeScript_faults:
  "getBrowser ev = Inr b \<Longrightarrow> faults_last is_lookup b (executeScript_body ev script args)"
  unfolding executeScript_body_def Let_def
  by (rule faults_bnd_lift) (auto intro!: faults_intros resolveArgs_faults)

lemma lookupArg_run:
  "\<exists>f added. lookupArg browser script arg tr = (Inr f, tr @ added) \<and> list_all is_lookup added"
  by (cases arg) (auto simp: lookupArg_def invoke_def ret_def split: sum.splits)

lemma settleArg_run:
  "\<exists>r added. settleArg browser arg found tr = (Inr r, tr @ added) \<and> list_all is_lookup added"
  by (cases found) (auto simp: settleArg_def invoke_def ret_def split: sum.splits)

lemma lookupArgs_run:
  "\<exists>fs added. lookupArgs browser script args tr = (Inr fs, tr @ added) \<and> list_all is_lookup added"
proof (induction args arbitrary: tr)
  case Nil
  show ?case by (simp add: ret_def)
next
  case (Cons arg args)
  from lookupArg_run [of browser script arg tr] obtain f a1 where
    1: "lookupArg browser script arg tr = (Inr f, tr @ a1)" "list_all is_lookup a1" by blast
  from Cons [of "tr @ a1"] obtain fs a2 where
    2: "lookupArgs browser script args (tr @ a1) = (Inr fs, (tr @ a1) @ a2)" "list_all is_lookup a2"
    by blast
  have "lookupArgs browser script (arg # args) tr = (Inr (f # fs), tr @ (a1 @ a2))"
    using 1(1) 2(1) by (simp add: bnd_def ret_def)
  with 1(2) 2(2) show ?case
    by (metis list_all_append)
qed

lemma settleArgs_run:
  "\<exists>rs added. settleArgs browser pairs tr = (Inr rs, tr @ added) \<and> list_all is_lookup added"
proof (induction pairs arbitrary: tr)
  case Nil
  show ?case by (simp add: ret_def)
next
  case (Cons p pairs)
  obtain arg found where p: "p = (arg, found)" by (cases p)
  from settleArg_run [of browser arg found tr] obtain r a1 where
    1: "settleArg browser arg found tr = (Inr r, tr @ a1)" "list_all is_lookup a1" by blast
  from Cons [of "tr @ a1"] obtain rs a2 where
    2: "settleArgs browser pairs (tr @ a1) = (Inr rs, (tr @ a1) @ a2)" "list_all is_lookup a2"
    by blast
  have "settleArgs browser (p # pairs) tr = (Inr (r # rs), tr @ (a1 @ a2))"
    using 1(1) 2(1) p by (simp add: bnd_def ret_def)
  with 1(2) 2(2) show ?case
    by (metis list_all_append)
qed

lemma resolveArgs_run:
  "\<exists>rs added. resolveArgs browser script args tr = (Inr rs, tr @ added) \<and> list_all is_lookup added"
proof -
  from lookupArgs_run [of browser script args tr] obtain fs a1 where
    1: "lookupArgs browser script args tr = (Inr fs, tr @ a1)" "list_all is_lookup a1" by blast
  from settleArgs_run [of browser "zip args fs" "tr @ a1"] obtain rs a2 where
    2: "settleArgs browser (zip args fs) (tr @ a1) = (Inr rs, (tr @ a1) @ a2)"
       "list_all is_lookup a2" by blast
  have "resolveArgs browser script args tr = (Inr rs, tr @ (a1 @ a2))"
    using 1(1) 2(1) by (simp add: resolveArgs_def bnd_def)
  with 1(2) 2(2) show ?thesis
    by (metis list_all_append)
qed

lemma executeScript_run:
  assumes "getBrowser ev = Inr browser"
  shows "\<exists>tr rs. snd (executeScriptTool ev script sargs) = tr @ [Execute script rs]
           \<and> list_all is_lookup tr
           \<and> fst (executeScriptTool ev script sargs)
             = (case execute browser tr script rs of
                  Inl e \<Rightarrow> [Text (''Error executing script: '' @ exn_text e)]
                | Inr v \<Rightarrow> [Text (resultText ev v)])"
proof -
  let ?args = "case sargs of None \<Rightarrow> [] | Some as \<Rightarrow> as"
  from resolveArgs_run [of browser script ?args "[]"] obtain rs tr where
    r: "resolveArgs browser script ?args [] = (Inr rs, tr)" "list_all is_lookup tr" by auto
  have "executeScriptTool ev script sargs
        = (case execute browser tr script rs of
             Inl e \<Rightarrow> ([Text (''Error executing script: '' @ exn_text e)], tr @ [Execute script rs])
           | Inr v \<Rightarrow> ([Text (resultText ev v)], tr @ [Execute script rs]))"
    using assms r(1)
    by (simp add: executeScriptTool_def executeScript_body_def try_catch_def bnd_simps Let_def)
       (simp add: bnd_def invoke_def ret_def split: sum.splits)
  then have "snd (executeScriptTool ev script sargs) = tr @ [Execute script rs]"
    and "fst (executeScriptTool ev script sargs)
         = (case execute browser tr script rs of
              Inl e \<Rightarrow> [Text (''Error executing script: '' @ exn_text e)]
            | Inr v \<Rightarrow> [Text (resultText ev v)])"
    by (simp_all split: sum.splits)
  with r(2) show ?thesis by blast
qed

lemma reports_faultsI:
  assumes s: "single_text body"
    and g: "\<And>e. getBrowser ev = Inl e \<Longrightarrow> body [] = (Inl e, [])"
    and f: "\<And>b. getBrowser ev = Inr b \<Longrightarrow> faults_last sw b body"
  shows "reports_faults label sw ev (try_catch label body)"
proof -
  obtain r tr where run: "body [] = (r, tr)" by (cases "body []")
  have one: "\<exists>t. fst (try_catch label body) = [Text t]"
  proof (cases r)
    case (Inl e)
    with run show ?thesis by (simp add: try_catch_def)
  next
    case (Inr v)
    with run s obtain t where "v = [Text t]"
      unfolding single_text_def by blast
    with run Inr show ?thesis by (simp add: try_catch_def)
  qed
  have gb: "try_catch label body = ([Text (label @ exn_text e)], [])"
    if "getBrowser ev = Inl e" for e
    using g [OF that] by (simp add: try_catch_def)
  have tr: "snd (try_catch label body) = tr"
    using run by (cases r) (simp_all add: try_catch_def)
  have dr: "rest = [] \<and> fst (try_catch label body) = [Text (label @ exn_text e)]"
    if b: "getBrowser ev = Inr b" and sp: "snd (try_catch label body) = pre @ c # rest"
      and nsw: "\<not> sw c" and flt: "answer_fault b pre c = Some e" for b pre c rest e
  proof -
    from f [OF b] run obtain added where a: "tr = [] @ added"
      and l: "\<And>pre c rest e. added = pre @ c # rest \<Longrightarrow> \<not> sw c
                \<Longrightarrow> answer_fault b ([] @ pre) c = Some e \<Longrightarrow> rest = [] \<and> r = Inl e"
      unfolding faults_last_def by blast
    from a sp tr have "added = pre @ c # rest" by simp
    from l [OF this nsw] flt have "rest = []" "r = Inl e" by simp_all
    with run show ?thesis by (simp add: try_catch_def)
  qed
  show ?thesis
    unfolding reports_faults_def using one gb dr by blast
qed

lemma tap_missing:
  assumes "getBrowser ev = Inr browser" "selector = None \<or> selector = Some []" "x = None \<or> y = None"
  shows "tapElementTool ev selector x y
         = ([Text ''Error: Must provide either selector or x,y coordinates''], [])"
  using assms
  by (auto simp: tapElementTool_def tapElement_body_def try_catch_def bnd_simps ret_def
        split: option.splits)

lemma drag_missing:
  assumes "getBrowser ev = Inr browser" "dollar browser [] src = Inr el"
    "tgt = None \<or> tgt = Some []" "x = None \<or> y = None"
  shows "dragAndDropTool ev src tgt x y duration
         = ([Text ''Error: Must provide either targetSelector or x,y coordinates''], [Find src])"
  using assms
  by (auto simp: dragAndDropTool_def dragAndDrop_body_def try_catch_def bnd_simps ret_def
        split: option.splits)

lemma accessibility_mobile:
  assumes "getBrowser ev = Inr browser" "isAndroid browser \<or> isIOS browser"
  shows "getAccessibilityTreeTool ev args
         = ([Text ''Error: get_accessibility is browser-only. For mobile apps, use get_visible_elements instead.''], [])"
  using assms
  by (auto simp: getAccessibilityTreeTool_def getAccessibilityTree_body_def try_catch_def
        bnd_simps ret_def)

lemma scroll_wrong_session:
  assumes "getBrowser ev = Inr browser" "sessionType ev \<noteq> Some ''browser''"
  shows "scrollTool ev d pixels
         = ([Text ''Error scrolling: Error: scroll only works in browser sessions. For mobile, use the swipe tool.''], [])"
  using assms
  by (simp add: scrollTool_def scroll_body_def try_catch_def bnd_simps throw_def Let_def)

subsection \<open>The error envelope\<close>

text \<open>
  Claim C2, as the code has it.  Every tool returns exactly one text block, whatever
  happens.  A throw of \<^verbatim>\<open>getBrowser\<close> and a fault with which the driver answers a call
  of the tool end the tool with the text \<^verbatim>\<open>Error <doing>: \<close> followed by the text of
  the fault, with the ten prefixes below; the faulty call is the last one issued.  One
  kind of call is left out: in \<^verbatim>\<open>execute_script\<close> the lookups \<^verbatim>\<open>browser.$\<close> and
  \<^verbatim>\<open>isExisting\<close> that resolve the arguments may fail without any report, and the result
  is that of \<^verbatim>\<open>browser.execute\<close> alone.  Missing arguments of \<^verbatim>\<open>tap_element\<close> and
  \<^verbatim>\<open>drag_and_drop\<close>, and a mobile session for \<^verbatim>\<open>get_accessibility\<close>, are no throw: the
  tool returns a text that starts with \<^verbatim>\<open>Error: \<close>.  The session check of
  \<^verbatim>\<open>scroll\<close> throws an \<^verbatim>\<open>Error\<close>, so that its text reads
  \<^verbatim>\<open>Error scrolling: Error: scroll only works ...\<close>.
\<close>

theorem error_envelope:
  "reports_faults ''Error tapping: '' swallows_nothing ev (tapElementTool ev selector x y)
   \<and> reports_faults ''Error swiping: '' swallows_nothing ev (swipeTool ev d duration percent)
   \<and> reports_faults ''Error dragging: '' swallows_nothing ev
        (dragAndDropTool ev src tgt dx dy dduration)
   \<and> reports_faults ''Error executing script: '' is_lookup ev (executeScriptTool ev script sargs)
   \<and> reports_faults ''Error scrolling: '' swallows_nothing ev (scrollTool ev sd pixels)
   \<and> reports_faults ''Error getting accessibility tree: '' swallows_nothing ev
        (getAccessibilityTreeTool ev aargs)
   \<and> reports_faults ''Error rotating device: '' swallows_nothing ev (rotateDeviceTool ev orient)
   \<and> reports_faults ''Error hiding keyboard: '' swallows_nothing ev (hideKeyboardTool ev)
   \<and> reports_faults ''Error getting geolocation: '' swallows_nothing ev (getGeolocationTool ev)
   \<and> reports_faults ''Error setting geolocation: '' swallows_nothing ev
        (setGeolocationTool ev lat lon alt)
   \<and> (getBrowser ev = Inr browser \<longrightarrow>
        (\<exists>tr rs. snd (executeScriptTool ev script sargs) = tr @ [Execute script rs]
           \<and> list_all is_lookup tr
           \<and> fst (executeScriptTool ev script sargs)
             = (case execute browser tr script rs of
                  Inl e \<Rightarrow> [Text (''Error executing script: '' @ exn_text e)]
                | Inr v \<Rightarrow> [Text (resultText ev v)])))
   \<and> (getBrowser ev = Inr browser \<and> (selector = None \<or> selector = Some []) \<and> (x = None \<or> y = None)
        \<longrightarrow> tapElementTool ev selector x y
            = ([Text ''Error: Must provide either selector or x,y coordinates''], []))
   \<and> (getBrowser ev = Inr browser \<and> dollar browser [] src = Inr el
        \<and> (tgt = None \<or> tgt = Some []) \<and> (dx = None \<or> dy = None)
        \<longrightarrow> dragAndDropTool ev src tgt dx dy dduration
            = ([Text ''Error: Must provide either targetSelector or x,y coordinates''], [Find src]))
   \<and> (getBrowser ev = Inr browser \<and> (isAndroid browser \<or> isIOS browser)
        \<longrightarrow> getAccessibilityTreeTool ev aargs
            = ([Text ''Error: get_accessibility is browser-only. For mobile apps, use get_visible_elements instead.''], []))
   \<and> (getBrowser ev = Inr browser \<and> sessionType ev \<noteq> Some ''browser''
        \<longrightarrow> scrollTool ev sd pixels
            = ([Text ''Error scrolling: Error: scroll only works in browser sessions. For mobile, use the swipe tool.''], []))"
proof -
  have 1: "reports_faults ''Error tapping: '' swallows_nothing ev (tapElementTool ev selector x y)"
    unfolding tapElementTool_def
    by (rule reports_faultsI [OF tapElement_single _ tapElement_faults])
       (simp_all add: tapElement_body_def bnd_simps)
  have 2: "reports_faults ''Error swiping: '' swallows_nothing ev (swipeTool ev d duration percent)"
    unfolding swipeTool_def
    by (rule reports_faultsI [OF swipe_single _ swipe_faults])
       (simp_all add: swipe_body_def bnd_simps)
  have 3: "reports_faults ''Error dragging: '' swallows_nothing ev
             (dragAndDropTool ev src tgt dx dy dduration)"
    unfolding dragAndDropTool_def
    by (rule reports_faultsI [OF dragAndDrop_single _ dragAndDrop_faults])
       (simp_all add: dragAndDrop_body_def bnd_simps)
  have 4: "reports_faults ''Error executing script: '' is_lookup ev
             (executeScriptTool ev script sargs)"
    unfolding executeScriptTool_def
    by (rule reports_faultsI [OF executeScript_single _ executeScript_faults])
       (simp_all add: executeScript_body_def bnd_simps)
  have 5: "reports_faults ''Error scrolling: '' swallows_nothing ev (scrollTool ev sd pixels)"
    unfolding scrollTool_def
    by (rule reports_faultsI [OF scroll_single _ scroll_faults])
       (simp_all add: scroll_body_def bnd_simps Let_def)
  have 6: "reports_faults ''Error getting accessibility tree: '' swallows_nothing ev
             (getAccessibilityTreeTool ev aargs)"
    unfolding getAccessibilityTreeTool_def
    by (rule reports_faultsI [OF getAccessibilityTree_single _ getAccessibilityTree_faults])
       (simp_all add: getAccessibilityTree_body_def bnd_simps)
  have 7: "reports_faults ''Error rotating device: '' swallows_nothing ev
             (rotateDeviceTool ev orient)"
    unfolding rotateDeviceTool_def
    by (rule reports_faultsI [OF rotateDevice_single _ rotateDevice_faults])
       (simp_all add: rotateDevice_body_def bnd_simps)
  have 8: "reports_faults ''Error hiding keyboard: '' swallows_nothing ev (hideKeyboardTool ev)"
    unfolding hideKeyboardTool_def
    by (rule reports_faultsI [OF hideKeyboard_single _ hideKeyboard_faults])
       (simp_all add: hideKeyboard_body_def bnd_simps)
  have 9: "reports_faults ''Error getting geolocation: '' swallows_nothing ev
             (getGeolocationTool ev)"
    unfolding getGeolocationTool_def
    by (rule reports_faultsI [OF getGeolocation_single _ getGeolocation_faults])
       (simp_all add: getGeolocation_body_def bnd_simps)
  have 10: "reports_faults ''Error setting geolocation: '' swallows_nothing ev
              (setGeolocationTool ev lat lon alt)"
    unfolding setGeolocationTool_def
    by (rule reports_faultsI [OF setGeolocation_single _ setGeolocation_faults])
       (simp_all add: setGeolocation_body_def bnd_simps)
  note rep = 1 2 3 4 5 6 7 8 9 10
  have s: "getBrowser ev = Inr browser \<longrightarrow>
        (\<exists>tr rs. snd (executeScriptTool ev script sargs) = tr @ [Execute script rs]
           \<and> list_all is_lookup tr
           \<and> fst (executeScriptTool ev script sargs)
             = (case execute browser tr script rs of
                  Inl e \<Rightarrow> [Text (''Error executing script: '' @ exn_text e)]
                | Inr v \<Rightarrow> [Text (resultText ev v)]))"
    using executeScript_run by blast
  have a: "getBrowser ev = Inr browser \<and> (selector = None \<or> selector = Some []) \<and> (x = None \<or> y = None)
        \<longrightarrow> tapElementTool ev selector x y
            = ([Text ''Error: Must provide either selector or x,y coordinates''], [])"
    using tap_missing by blast
  have b: "getBrowser ev = Inr browser \<and> dollar browser [] src = Inr el
        \<and> (tgt = None \<or> tgt = Some []) \<and> (dx = None \<or> dy = None)
        \<longrightarrow> dragAndDropTool ev src tgt dx dy dduration
            = ([Text ''Error: Must provide either targetSelector or x,y coordinates''], [Find src])"
    using drag_missing by blast
  have c: "getBrowser ev = Inr browser \<and> (isAndroid browser \<or> isIOS browser)
        \<longrightarrow> getAccessibilityTreeTool ev aargs
            = ([Text ''Error: get_accessibility is browser-only. For mobile apps, use get_visible_elements instead.''], [])"
    using accessibility_mobile by blast
  have d: "getBrowser ev = Inr browser \<and> sessionType ev \<noteq> Some ''browser''
        \<longrightarrow> scrollTool ev sd pixels
            = ([Text ''Error scrolling: Error: scroll only works in browser sessions. For mobile, use the swipe tool.''], [])"
    using scroll_wrong_session by blast
  from rep s a b c d show ?thesis by (intro conjI)
qed

text \<open>
  The theorem with the stub driver, where hiding the keyboard throws: a tap with one
  coordinate only, a drag without a target, a scroll outside a browser session; and
  with the driver whose lookups throw, where \<^verbatim>\<open>execute_script\<close> goes on to the script.
\<close>

theorem error_envelope_witness:
  "getBrowser (stub_env None) = Inr stub_driver
   \<and> snd (hideKeyboardTool (stub_env None)) = [] @ HideKeyboard # []
   \<and> answer_fault stub_driver [] HideKeyboard = Some (Exn ''Error'' ''keyboard is not shown'')
   \<and> fst (hideKeyboardTool (stub_env None))
     = [Text ''Error hiding keyboard: Error: keyboard is not shown'']
   \<and> dollar stub_driver [] ''#card'' = Inr (Element 5)
   \<and> tapElementTool (stub_env None) None (Some 10) None
     = ([Text ''Error: Must provide either selector or x,y coordinates''], [])
   \<and> dragAndDropTool (stub_env None) ''#card'' None None None None
     = ([Text ''Error: Must provide either targetSelector or x,y coordinates''], [Find ''#card''])
   \<and> scrollTool (stub_env None) ScrollUp (Some 200)
     = ([Text ''Error scrolling: Error: scroll only works in browser sessions. For mobile, use the swipe tool.''], [])
   \<and> getBrowser lost_env = Inr lost_driver
   \<and> answer_fault lost_driver [] (Find ''#x'') = Some (Exn ''Error'' ''invalid selector'')
   \<and> executeScriptTool lost_env ''return 1'' (Some [JStr ''#x''])
     = ([Text ''Script executed successfully (no return value)''],
        [Find ''#x'', Execute ''return 1'' [Value (JStr ''#x'')]])"
proof -
  have h: "getBrowser (stub_env None) = Inr stub_driver" "sessionType (stub_env None) = None"
          "dollar stub_driver [] ''#card'' = Inr (Element 5)"
    by (simp_all add: stub_env_def stub_driver_def)
  have tr: "snd (hideKeyboardTool (stub_env None)) = [] @ HideKeyboard # []"
    by (simp add: hideKeyboardTool_def hideKeyboard_body_def try_catch_def bnd_simps
          stub_env_def stub_driver_def)
  have af: "answer_fault stub_driver [] HideKeyboard = Some (Exn ''Error'' ''keyboard is not shown'')"
    by (simp add: stub_driver_def)
  note at_stub = error_envelope [of "stub_env None" None "Some 10" None Up None None "''#card''"
      None None None None "[]" None ScrollUp "Some 200"
      "\<lparr>limit = None, offset = None, roles = None, namedOnly = None\<rparr>" PORTRAIT 0 0 None
      stub_driver "Element 5"]
  from at_stub have
    "reports_faults ''Error hiding keyboard: '' swallows_nothing (stub_env None)
       (hideKeyboardTool (stub_env None))"
    by blast
  with h(1) tr af have
    "fst (hideKeyboardTool (stub_env None))
     = [Text (''Error hiding keyboard: '' @ exn_text (Exn ''Error'' ''keyboard is not shown''))]"
    unfolding reports_faults_def swallows_nothing_def by blast
  then have k: "fst (hideKeyboardTool (stub_env None))
                = [Text ''Error hiding keyboard: Error: keyboard is not shown'']"
    by simp
  from at_stub h have m:
    "tapElementTool (stub_env None) None (Some 10) None
     = ([Text ''Error: Must provide either selector or x,y coordinates''], [])"
    "dragAndDropTool (stub_env None) ''#card'' None None None None
     = ([Text ''Error: Must provide either targetSelector or x,y coordinates''], [Find ''#card''])"
    "scrollTool (stub_env None) ScrollUp (Some 200)
     = ([Text ''Error scrolling: Error: scroll only works in browser sessions. For mobile, use the swipe tool.''], [])"
    by simp_all
  have l: "getBrowser lost_env = Inr lost_driver"
          "answer_fault lost_driver [] (Find ''#x'') = Some (Exn ''Error'' ''invalid selector'')"
    by (simp_all add: lost_env_def lost_driver_def stub_env_def)
  have r: "resolveArgs lost_driver ''return 1'' [JStr ''#x''] []
           = (Inr [Value (JStr ''#x'')], [Find ''#x''])"
    by (simp add: resolveArgs_def lookupArg_def settleArg_def startsWith_def bnd_def invoke_def
          ret_def lost_driver_def)
  have x: "executeScriptTool lost_env ''return 1'' (Some [JStr ''#x''])
           = ([Text ''Script executed successfully (no return value)''],
              [Find ''#x'', Execute ''return 1'' [Value (JStr ''#x'')]])"
    by (simp add: executeScriptTool_def executeScript_body_def try_catch_def l(1)
          bnd_def lift_def r invoke_def ret_def resultText_def)
       (simp add: lost_driver_def stub_driver_def ret_def)
  from h tr af k m l x show ?thesis by simp
qed

text \<open>
  Claim C2 as it is written asks for the prefix \<^verbatim>\<open>Error tapping: \<close> on every failure
  of \<^verbatim>\<open>tap_element\<close>.  A tap with neither selector nor coordinates returns a text that
  starts with \<^verbatim>\<open>Error: \<close> instead.
\<close>

theorem tap_missing_arguments_counterexample:
  "fst (tapElementTool (stub_env None) None None None)
     = [Text ''Error: Must provide either selector or x,y coordinates'']
   \<and> \<not> startsWith ''Error: Must provide either selector or x,y coordinates'' ''Error tapping: ''"
  by (simp add: tapElementTool_def tapElement_body_def try_catch_def bnd_simps ret_def
        stub_env_def startsWith_def)

end
